theory Spec2Isabelle
  imports
    Complex_Main
    "HOL-Library.Char_ord"
    "HOL-Library.List_Lexorder"
    "HOL-Library.Product_Lexorder"
    "HOL-Library.Multiset"
begin

section \<open>Python values read from JSON\<close>

text \<open>
  The availability payloads are decoded JSON.  A field that is present holds a value of the
  JSON type the endpoint delivers: identifiers, labels and dates are strings (lists of
  8-bit characters here), collections are lists of objects; \<open>null\<close> or a value of another
  type in such a field is outside the model.  A key that may be absent is an \<open>option\<close>
  whose \<open>None\<close> is replaced by the default of the \<open>dict.get\<close> call.  The two flags and
  \<open>availableCount\<close> are kept as arbitrary JSON scalars, because the code applies Python
  truthiness and \<open>int(...)\<close> to them.  A float is kept by its exact (rational) value, or as
  NaN or an infinity.
\<close>

datatype pyfloat = Finite rat | NaN | Infinity bool

datatype pyval = PyNone | PyBool bool | PyInt int | PyFloat pyfloat | PyStr string

text \<open>Truthiness, as \<open>not v\<close> tests it.\<close>

fun truthy :: "pyval \<Rightarrow> bool" where
  "truthy PyNone = False"
| "truthy (PyBool b) = b"
| "truthy (PyInt n) = (n \<noteq> 0)"
| "truthy (PyFloat (Finite q)) = (q \<noteq> 0)"
| "truthy (PyFloat NaN) = True"
| "truthy (PyFloat (Infinity b)) = True"
| "truthy (PyStr s) = (s \<noteq> [])"

text \<open>\<open>dict.get(key, default)\<close> on a key that may be absent.\<close>

definition get_or :: "'a option \<Rightarrow> 'a \<Rightarrow> 'a" where
  "get_or v d = (case v of None \<Rightarrow> d | Some x \<Rightarrow> x)"

subsection \<open>\<open>int(...)\<close>\<close>

text \<open>
  \<open>int\<close> of a string strips surrounding whitespace, reads an optional sign and then decimal
  digits, where single underscores may stand between digits; anything else raises
  \<open>ValueError\<close>.  The whitespace \<open>int\<close> strips is tab, line feed, vertical tab, form feed,
  carriage return and space, and of the characters above 127 the next-line and the
  no-break space; the separators 0x1C to 0x1F are not stripped.  A string with more than
  4300 digits raises \<open>ValueError\<close> as well (the default limit of CPython 3.11 and later;
  signs, underscores and whitespace do not count).  \<open>int\<close> of a float truncates towards
  zero and raises on NaN and on the infinities; \<open>int(None)\<close> raises \<open>TypeError\<close>.  A raised
  exception is the value \<open>None\<close>.
\<close>

definition is_space :: "char \<Rightarrow> bool" where
  "is_space c = (c \<in> set [CHR 0x09, CHR 0x0A, CHR 0x0B, CHR 0x0C, CHR 0x0D, CHR 0x20,
     CHR 0x85, CHR 0xA0])"

definition is_digit :: "char \<Rightarrow> bool" where
  "is_digit c = (c \<in> set ''0123456789'')"

definition digit_val :: "char \<Rightarrow> int" where
  "digit_val c = int (of_char c) - 48"

definition strip :: "string \<Rightarrow> string" where
  "strip s = rev (dropWhile is_space (rev (dropWhile is_space s)))"

fun digits_from :: "int \<Rightarrow> string \<Rightarrow> int option" where
  "digits_from acc [] = Some acc"
| "digits_from acc [c] = (if is_digit c then Some (10 * acc + digit_val c) else None)"
| "digits_from acc (c # d # ds) =
     (if is_digit c then digits_from (10 * acc + digit_val c) (d # ds)
      else if c = CHR ''_'' \<and> is_digit d then digits_from (10 * acc + digit_val d) ds
      else None)"

definition max_str_digits :: nat where
  "max_str_digits = 4300"

definition digits :: "string \<Rightarrow> int option" where
  "digits s = (case s of [] \<Rightarrow> None
     | c # cs \<Rightarrow>
         if is_digit c \<and> length (filter is_digit s) \<le> max_str_digits
         then digits_from (digit_val c) cs else None)"

definition int_of_str :: "string \<Rightarrow> int option" where
  "int_of_str s = (case strip s of [] \<Rightarrow> None
     | c # cs \<Rightarrow>
         if c = CHR ''-'' then map_option uminus (digits cs)
         else if c = CHR ''+'' then digits cs
         else digits (c # cs))"

fun py_int :: "pyval \<Rightarrow> int option" where
  "py_int PyNone = None"
| "py_int (PyBool b) = Some (if b then 1 else 0)"
| "py_int (PyInt n) = Some n"
| "py_int (PyFloat (Finite q)) = Some (if 0 \<le> q then \<lfloor>q\<rfloor> else \<lceil>q\<rceil>)"
| "py_int (PyFloat NaN) = None"
| "py_int (PyFloat (Infinity b)) = None"
| "py_int (PyStr s) = int_of_str s"

subsection \<open>Substring test\<close>

text \<open>\<open>sub in s\<close> on strings.\<close>

fun contains :: "string \<Rightarrow> string \<Rightarrow> bool" where
  "contains sub [] = (sub = [])"
| "contains sub (c # cs) = (take (length sub) (c # cs) = sub \<or> contains sub cs)"

section \<open>The raw payload and the parsed rows\<close>

text \<open>
  \<open>resorts[] \<rightarrow> resortOfferings[] \<rightarrow> accomdationClasses[] \<rightarrow> calendarDays[] \<rightarrow>
  inventoryOfferings[]\<close>.  The level of each JSON key is written in front of it, since the
  rows of the output carry the same key names.
\<close>

record inventory =
  inv_availableCount :: "pyval option"
  inv_inventoryOfferingHashKey :: "string option"
  inv_invenOffrngLabel :: "string option"

record calendar_day =
  day_available :: "pyval option"
  day_date :: "string option"
  day_inventoryOfferings :: "inventory list option"

record accommodation =
  acc_calendarDays :: "calendar_day list option"

record offering =
  off_offeringId :: "string option"
  off_offeringLabel :: "string option"
  off_accomdationClasses :: "accommodation list option"

record resort =
  res_hasAvailableUnits :: "pyval option"
  res_resortOfferings :: "offering list option"

record payload =
  resorts :: "resort list option"

text \<open>A row of the output: the dictionary built at the innermost level of the parser.
  \<open>availableCount\<close> keeps the raw value of the payload.\<close>

record row =
  date :: string
  offeringId :: string
  inventoryOfferingHashKey :: string
  invenOffrngLabel :: string
  availableCount :: pyval

section \<open>The parser\<close>

text \<open>
  \<open>AvailabilityCSVGenerator._parse_response\<close>, \<open>RealtimeCSVHandler.parse_network_response\<close>
  and the body of \<open>parse_network_response\<close> of the batch converter are the same nest of
  loops inside one \<open>try ... except Exception\<close>.  Every loop appends to \<open>data_rows\<close>; an
  exception leaves all the loops at once and the function returns the \<open>data_rows\<close>
  collected so far.  A loop body therefore maps \<open>data_rows\<close> to an outcome that says whether
  it completed or raised, with the rows in both cases.
\<close>

datatype 'a outcome = Completed 'a | Raised 'a

fun rows_of :: "'a outcome \<Rightarrow> 'a" where
  "rows_of (Completed rs) = rs"
| "rows_of (Raised rs) = rs"

fun for_loop :: "('a \<Rightarrow> 's \<Rightarrow> 's outcome) \<Rightarrow> 'a list \<Rightarrow> 's \<Rightarrow> 's outcome" where
  "for_loop body [] s = Completed s"
| "for_loop body (x # xs) s =
     (case body x s of Raised s' \<Rightarrow> Raised s' | Completed s' \<Rightarrow> for_loop body xs s')"

definition display_offering_id :: "string \<Rightarrow> string \<Rightarrow> string" where
  "display_offering_id offering_id offering_label =
     (if contains ''Presidential Reserve'' offering_label then
        (if \<not> contains ''Presidential Reserve'' offering_id
         then offering_id @ '' Presidential Reserve''
         else offering_id)
      else offering_id)"

definition inventory_label :: "string \<Rightarrow> string \<Rightarrow> string" where
  "inventory_label offering_label label =
     (if contains ''Presidential Reserve'' offering_label
         \<and> \<not> contains ''Presidential Reserve'' label
      then label @ '' (Presidential Reserve)''
      else label)"

definition make_row :: "string \<Rightarrow> string \<Rightarrow> string \<Rightarrow> inventory \<Rightarrow> row" where
  "make_row offering_label display_id dt inventory =
     \<lparr> date = dt,
       offeringId = display_id,
       inventoryOfferingHashKey = get_or (inv_inventoryOfferingHashKey inventory) [],
       invenOffrngLabel =
         inventory_label offering_label (get_or (inv_invenOffrngLabel inventory) []),
       availableCount = get_or (inv_availableCount inventory) (PyStr ''0'') \<rparr>"

definition inventory_body ::
  "string \<Rightarrow> string \<Rightarrow> string \<Rightarrow> inventory \<Rightarrow> row list \<Rightarrow> row list outcome" where
  "inventory_body offering_label display_id dt inventory data_rows =
     (case py_int (get_or (inv_availableCount inventory) (PyStr ''0'')) of
        None \<Rightarrow> Raised data_rows
      | Some n \<Rightarrow>
          if n > 0 then Completed (data_rows @ [make_row offering_label display_id dt inventory])
          else Completed data_rows)"

definition day_body ::
  "string \<Rightarrow> string \<Rightarrow> calendar_day \<Rightarrow> row list \<Rightarrow> row list outcome" where
  "day_body offering_label display_id day data_rows =
     (if \<not> truthy (get_or (day_available day) (PyBool False)) then Completed data_rows
      else for_loop (inventory_body offering_label display_id (get_or (day_date day) []))
             (get_or (day_inventoryOfferings day) []) data_rows)"

definition accommodation_body ::
  "string \<Rightarrow> string \<Rightarrow> accommodation \<Rightarrow> row list \<Rightarrow> row list outcome" where
  "accommodation_body offering_label display_id acc data_rows =
     for_loop (day_body offering_label display_id) (get_or (acc_calendarDays acc) []) data_rows"

definition offering_body :: "offering \<Rightarrow> row list \<Rightarrow> row list outcome" where
  "offering_body off data_rows =
     (let offering_id = get_or (off_offeringId off) [];
          offering_label = get_or (off_offeringLabel off) []
      in for_loop (accommodation_body offering_label
                     (display_offering_id offering_id offering_label))
           (get_or (off_accomdationClasses off) []) data_rows)"

definition resort_body :: "resort \<Rightarrow> row list \<Rightarrow> row list outcome" where
  "resort_body res data_rows =
     (if \<not> truthy (get_or (res_hasAvailableUnits res) (PyBool False)) then Completed data_rows
      else for_loop offering_body (get_or (res_resortOfferings res) []) data_rows)"

definition parse_response :: "payload \<Rightarrow> row list" where
  "parse_response data =
     (case resorts data of
        None \<Rightarrow> []
      | Some rs \<Rightarrow> if rs = [] then [] else rows_of (for_loop resort_body rs []))"

section \<open>The ledger: a dictionary in insertion order\<close>

text \<open>
  \<open>unique_combinations\<close> is a Python \<open>dict\<close> from the four-field tuple to the row.  A
  \<open>dict\<close> keeps its keys in the order of their first insertion and \<open>values()\<close> lists the
  values in that order, so it is an association list that grows at its end.
\<close>

type_synonym key = "string \<times> string \<times> string \<times> string"

type_synonym ledger = "(key \<times> row) list"

definition row_key :: "row \<Rightarrow> key" where
  "row_key r = (date r, offeringId r, inventoryOfferingHashKey r, invenOffrngLabel r)"

definition dict_contains :: "key \<Rightarrow> ledger \<Rightarrow> bool" where
  "dict_contains k d = (k \<in> set (map fst d))"

definition dict_set :: "key \<Rightarrow> row \<Rightarrow> ledger \<Rightarrow> ledger" where
  "dict_set k v d =
     (if k \<in> set (map fst d) then map (\<lambda>(k', v'). if k' = k then (k', v) else (k', v')) d
      else d @ [(k, v)])"

definition dict_values :: "ledger \<Rightarrow> row list" where
  "dict_values d = map snd d"

text \<open>The key of \<open>sorted(..., key=lambda x: (x['date'], x['offeringId'],
  x['invenOffrngLabel']))\<close>.  Python compares the tuples lexicographically and the strings
  by code point with a proper prefix first, which is the order of the product and list
  instances used here; \<open>sorted\<close> is stable, as \<open>sort_key\<close> is.\<close>

definition date_offering_label :: "row \<Rightarrow> string \<times> string \<times> string" where
  "date_offering_label x = (date x, offeringId x, invenOffrngLabel x)"

definition sorted_data :: "ledger \<Rightarrow> row list" where
  "sorted_data d = sort_key date_offering_label (dict_values d)"

subsection \<open>The batch converter: \<open>aggregate_by_date\<close>\<close>

definition keep_first :: "row \<Rightarrow> ledger \<Rightarrow> ledger" where
  "keep_first r d = (if \<not> dict_contains (row_key r) d then dict_set (row_key r) r d else d)"

definition aggregate_by_date :: "row list \<Rightarrow> row list" where
  "aggregate_by_date all_data =
     (let unique_combinations = fold keep_first all_data []
      in sort_key date_offering_label (dict_values unique_combinations))"

section \<open>The output file\<close>

text \<open>
  The output is written through \<open>csv.DictWriter\<close>: \<open>writeheader()\<close> writes the field
  names and each \<open>writerow(row)\<close> one record.  A file is the list of what was written to
  it.  A write fails when \<open>open\<close> raises, or when \<open>writeheader\<close> or a \<open>writerow\<close> raises
  after the file has been opened: \<open>can_open\<close> says for which paths \<open>open\<close> succeeds, and
  \<open>write_limit\<close> after how many lines a write to a path raises, if it does.  The file then
  holds the lines written before the failure; with mode \<open>'w'\<close> its old content is lost when
  it is opened.  A path is the pair of a directory and a file name that \<open>pathlib\<close> joins.
  What the code prints about its writes is kept in \<open>console\<close>.
\<close>

type_synonym path = "string \<times> string"

datatype csv_line = Header "string list" | Record row

datatype message =
    Added_new_unique_rows nat nat
  | Error_writing_to_CSV
  | Regenerated_sorted_CSV nat
  | Error_regenerating_CSV
  | CSV_file_created path nat
  | Error_writing_CSV_file path
  | Trying_alternative_location path
  | CSV_file_created_at_alternative path nat
  | Error_writing_to_alternative_location

record world =
  files :: "path \<Rightarrow> csv_line list option"
  can_open :: "path \<Rightarrow> bool"
  write_limit :: "path \<Rightarrow> nat option"
  console :: "message list"

definition fieldnames :: "string list" where
  "fieldnames = [''date'', ''offeringId'', ''inventoryOfferingHashKey'',
     ''invenOffrngLabel'', ''availableCount'']"

definition print :: "message \<Rightarrow> world \<Rightarrow> world" where
  "print m w = w\<lparr>console := console w @ [m]\<rparr>"

text \<open>Whether writing \<open>n\<close> lines to the path raises, and the lines that reach the file
  once it is open.\<close>

definition write_raises :: "world \<Rightarrow> path \<Rightarrow> nat \<Rightarrow> bool" where
  "write_raises w p n =
     (if can_open w p then (case write_limit w p of None \<Rightarrow> False | Some k \<Rightarrow> k < n)
      else True)"

definition written :: "world \<Rightarrow> path \<Rightarrow> csv_line list \<Rightarrow> csv_line list" where
  "written w p lines = (case write_limit w p of None \<Rightarrow> lines | Some k \<Rightarrow> take k lines)"

text \<open>\<open>with open(p, 'w') as f: writeheader(); for row in rows: writerow(row)\<close>, inside a
  \<open>try\<close>: the world afterwards, and whether an exception reached the handler.\<close>

definition write_csv :: "path \<Rightarrow> row list \<Rightarrow> world \<Rightarrow> world outcome" where
  "write_csv p rows w =
     (let lines = Header fieldnames # map Record rows in
      if \<not> can_open w p then Raised w
      else
        (let w' = w\<lparr>files := (files w)(p \<mapsto> written w p lines)\<rparr>
         in if write_raises w p (length lines) then Raised w' else Completed w'))"

text \<open>\<open>with open(p, 'a') as f: for row in rows: writerow(row)\<close>.\<close>

definition append_csv :: "path \<Rightarrow> row list \<Rightarrow> world \<Rightarrow> world outcome" where
  "append_csv p rows w =
     (let lines = map Record rows in
      if \<not> can_open w p then Raised w
      else
        (let w' = w\<lparr>files := (files w)(p \<mapsto> get_or (files w p) [] @ written w p lines)\<rparr>
         in if write_raises w p (length lines) then Raised w' else Completed w'))"

section \<open>The file watcher: \<open>AvailabilityCSVGenerator\<close>\<close>

record watcher =
  output_csv :: path
  unique_combinations :: ledger

text \<open>The loop of \<open>_append_to_csv\<close> and of \<open>update_csv_realtime\<close>: the dictionary and
  the list of the rows that were new.\<close>

definition insert_row :: "row \<Rightarrow> ledger \<times> row list \<Rightarrow> ledger \<times> row list" where
  "insert_row r st =
     (case st of (d, unique_new_rows) \<Rightarrow>
        if \<not> dict_contains (row_key r) d
        then (dict_set (row_key r) r d, unique_new_rows @ [r])
        else (d, unique_new_rows))"

definition append_to_csv :: "row list \<Rightarrow> watcher \<times> world \<Rightarrow> watcher \<times> world" where
  "append_to_csv new_rows st =
     (case st of (self, w) \<Rightarrow>
        (case fold insert_row new_rows (unique_combinations self, []) of
           (d, unique_new_rows) \<Rightarrow>
             let self' = self\<lparr>unique_combinations := d\<rparr> in
             if unique_new_rows \<noteq> [] then
               (case append_csv (output_csv self) unique_new_rows w of
                  Completed w' \<Rightarrow>
                    (self', print (Added_new_unique_rows (length unique_new_rows) (length d)) w')
                | Raised w' \<Rightarrow> (self', print Error_writing_to_CSV w'))
             else (self', w)))"

definition regenerate_sorted_csv :: "watcher \<times> world \<Rightarrow> watcher \<times> world" where
  "regenerate_sorted_csv st =
     (case st of (self, w) \<Rightarrow>
        let rows = sorted_data (unique_combinations self) in
        (case write_csv (output_csv self) rows w of
           Completed w' \<Rightarrow> (self, print (Regenerated_sorted_CSV (length rows)) w')
         | Raised w' \<Rightarrow> (self, print Error_regenerating_CSV w')))"

text \<open>What \<open>_process_file\<close> does with the decoded payload of a file.\<close>

definition process_payload :: "payload \<Rightarrow> watcher \<times> world \<Rightarrow> watcher \<times> world" where
  "process_payload data st =
     (let new_rows = parse_response data
      in if new_rows \<noteq> [] then append_to_csv new_rows st else st)"

text \<open>\<open>__init__\<close> without the files that already exist: an empty dictionary and a file
  with the header only (\<open>_initialize_csv\<close> has no handler: a failing write ends the
  construction, and there is no watcher).\<close>

definition init_watcher :: "path \<Rightarrow> world \<Rightarrow> watcher option \<times> world" where
  "init_watcher out w =
     (case write_csv out [] w of
        Raised w' \<Rightarrow> (None, w')
      | Completed w' \<Rightarrow> (Some \<lparr>output_csv = out, unique_combinations = []\<rparr>, w'))"

section \<open>The live scanner: \<open>RealtimeCSVHandler\<close>\<close>

record handler =
  output_file :: path
  all_data :: "row list"
  rt_unique_combinations :: ledger

text \<open>\<open>update_csv_realtime\<close> on a decoded response (the \<open>dict\<close> branch).\<close>

definition update_csv_realtime :: "payload \<Rightarrow> handler \<times> world \<Rightarrow> handler \<times> world" where
  "update_csv_realtime new_data st =
     (case st of (self, w) \<Rightarrow>
        let parsed_rows = parse_response new_data in
        if parsed_rows = [] then (self, w)
        else
          (case fold insert_row parsed_rows (rt_unique_combinations self, []) of
             (d, new_unique_rows) \<Rightarrow>
               let self' = self\<lparr>all_data := all_data self @ parsed_rows,
                                 rt_unique_combinations := d\<rparr> in
               if new_unique_rows \<noteq> [] then
                 (case append_csv (output_file self) new_unique_rows w of
                    Completed w' \<Rightarrow>
                      (self', print (Added_new_unique_rows (length new_unique_rows) (length d)) w')
                  | Raised w' \<Rightarrow> (self', print Error_writing_to_CSV w'))
               else (self', w)))"

text \<open>\<open>RealtimeCSVHandler.regenerate_sorted_csv\<close>.\<close>

definition handler_regenerate_sorted_csv :: "handler \<times> world \<Rightarrow> handler \<times> world" where
  "handler_regenerate_sorted_csv st =
     (case st of (self, w) \<Rightarrow>
        let rows = sorted_data (rt_unique_combinations self) in
        (case write_csv (output_file self) rows w of
           Completed w' \<Rightarrow> (self, print (Regenerated_sorted_CSV (length rows)) w')
         | Raised w' \<Rightarrow> (self, print Error_regenerating_CSV w')))"

section \<open>The batch converter: writing the output of \<open>process_directory\<close>\<close>

text \<open>The \<open>try ... except\<close> at the end of \<open>process_directory\<close>: the data is written
  to the input directory and, when that raises, once more to the working directory.\<close>

definition write_output :: "string \<Rightarrow> string \<Rightarrow> string \<Rightarrow> row list \<Rightarrow> world \<Rightarrow> world" where
  "write_output cwd directory_path output_name aggregated_data w =
     (let output_path = (directory_path, output_name) in
      case write_csv output_path aggregated_data w of
        Completed w' \<Rightarrow> print (CSV_file_created output_path (length aggregated_data)) w'
      | Raised w0 \<Rightarrow>
          (let w1 = print (Error_writing_CSV_file output_path) w0;
               alt_output_path = (cwd, output_name);
               w2 = print (Trying_alternative_location alt_output_path) w1
           in case write_csv alt_output_path aggregated_data w2 of
                Completed w' \<Rightarrow>
                  print (CSV_file_created_at_alternative alt_output_path (length aggregated_data)) w'
              | Raised w' \<Rightarrow> print Error_writing_to_alternative_location w'))"

text \<open>\<open>process_directory\<close> on the decoded contents of the response files, in the sorted
  order of their names.\<close>

definition process_directory ::
  "string \<Rightarrow> string \<Rightarrow> string \<Rightarrow> payload list \<Rightarrow> world \<Rightarrow> world" where
  "process_directory cwd directory_path output_name responses w =
     (if responses = [] then w
      else write_output cwd directory_path output_name
             (aggregate_by_date (concat (map parse_response responses))) w)"

section \<open>The dashboard: \<open>CSVMonitor.read_csv_stats\<close>\<close>

text \<open>
  \<open>csv.DictReader\<close> yields one dictionary per data line.  A column that the header does
  not name is an absent key (\<open>None\<close> below, replaced by the default of \<open>row.get\<close>); a
  column that the header names and the line is too short for has the value \<open>None\<close> of
  Python (\<open>NoCell\<close>); every other value is a string.
\<close>

datatype cell = NoCell | Cell string

record csv_row =
  csv_date :: "cell option"
  csv_offeringId :: "cell option"
  csv_invenOffrngLabel :: "cell option"
  csv_availableCount :: "cell option"

record stats =
  total_rows :: nat
  unique_dates :: "string set"
  unique_properties :: "string set"
  room_types :: "string \<Rightarrow> nat"
  availability_by_date :: "string \<Rightarrow> int"
  availability_by_property :: "string \<Rightarrow> int"
  presidential_count :: nat
  latest_date :: "string option"
  earliest_date :: "string option"

definition empty_stats :: stats where
  "empty_stats = \<lparr> total_rows = 0, unique_dates = {}, unique_properties = {},
     room_types = (\<lambda>_. 0), availability_by_date = (\<lambda>_. 0),
     availability_by_property = (\<lambda>_. 0), presidential_count = 0,
     latest_date = None, earliest_date = None \<rparr>"

text \<open>\<open>int(row.get('availableCount', 0))\<close>.\<close>

definition available_of :: "csv_row \<Rightarrow> int option" where
  "available_of r =
     (case csv_availableCount r of
        None \<Rightarrow> Some 0
      | Some NoCell \<Rightarrow> None
      | Some (Cell s) \<Rightarrow> int_of_str s)"

text \<open>A cell is truthy when it is a string that is not empty.\<close>

fun cell_str :: "cell \<Rightarrow> string option" where
  "cell_str NoCell = None"
| "cell_str (Cell s) = (if s = [] then None else Some s)"

text \<open>\<open>'Presidential' in v\<close>: a \<open>TypeError\<close> (\<open>None\<close>) when \<open>v\<close> is \<open>None\<close>.\<close>

fun cell_contains :: "string \<Rightarrow> cell \<Rightarrow> bool option" where
  "cell_contains sub NoCell = None"
| "cell_contains sub (Cell s) = Some (contains sub s)"

definition count_date :: "string \<Rightarrow> int \<Rightarrow> stats \<Rightarrow> stats" where
  "count_date d available st =
     (let st1 = st\<lparr>unique_dates := insert d (unique_dates st),
                    availability_by_date :=
                      (availability_by_date st)(d := availability_by_date st d + available)\<rparr>;
          st2 = (if earliest_date st1 = None \<or> earliest_date st1 = Some []
                    \<or> d < the (earliest_date st1)
                 then st1\<lparr>earliest_date := Some d\<rparr> else st1)
      in if latest_date st2 = None \<or> latest_date st2 = Some [] \<or> d > the (latest_date st2)
         then st2\<lparr>latest_date := Some d\<rparr> else st2)"

definition count_property :: "string \<Rightarrow> int \<Rightarrow> stats \<Rightarrow> stats" where
  "count_property p available st =
     st\<lparr>unique_properties := insert p (unique_properties st),
        availability_by_property :=
          (availability_by_property st)(p := availability_by_property st p + available)\<rparr>"

definition stats_body :: "csv_row \<Rightarrow> stats \<Rightarrow> stats outcome" where
  "stats_body r st0 =
     (let st1 = st0\<lparr>total_rows := total_rows st0 + 1\<rparr>;
          dt = get_or (csv_date r) (Cell []);
          offering_id = get_or (csv_offeringId r) (Cell []);
          room_label = get_or (csv_invenOffrngLabel r) (Cell [])
      in case available_of r of
           None \<Rightarrow> Raised st1
         | Some available \<Rightarrow>
             (let st2 = (case cell_str dt of
                           None \<Rightarrow> st1 | Some d \<Rightarrow> count_date d available st1);
                  st3 = (case cell_str offering_id of
                           None \<Rightarrow> st2 | Some p \<Rightarrow> count_property p available st2)
              in case cell_str room_label of
                   None \<Rightarrow> Completed st3
                 | Some l \<Rightarrow>
                     (let st4 = st3\<lparr>room_types := (room_types st3)(l := room_types st3 l + 1)\<rparr>
                      in if contains ''Presidential'' l
                         then Completed (st4\<lparr>presidential_count := presidential_count st4 + 1\<rparr>)
                         else (case cell_contains ''Presidential'' offering_id of
                                 None \<Rightarrow> Raised st4
                               | Some True \<Rightarrow>
                                   Completed (st4\<lparr>presidential_count := presidential_count st4 + 1\<rparr>)
                               | Some False \<Rightarrow> Completed st4))))"

text \<open>The statistics of a file that exists, from the rows the reader yields; an
  exception ends the reading and the statistics collected so far are returned.\<close>

definition read_csv_stats :: "csv_row list \<Rightarrow> stats" where
  "read_csv_stats rows = rows_of (for_loop stats_body rows empty_stats)"

section \<open>Auxiliary notions\<close>

text \<open>An outcome with its rows kept and the exception added: what a loop returns when the
  element after the ones it has run raises.\<close>

fun raised :: "'a outcome \<Rightarrow> 'a outcome" where
  "raised (Completed s) = Raised s"
| "raised (Raised s) = Raised s"

text \<open>The inventory entries for which the parser appends a row.\<close>

definition emitted :: "inventory \<Rightarrow> bool" where
  "emitted inventory =
     (case py_int (get_or (inv_availableCount inventory) (PyStr ''0'')) of
        None \<Rightarrow> False | Some n \<Rightarrow> 0 < n)"

text \<open>The invariant of the dictionary: no key twice, and every row under its own key.\<close>

definition keyed :: "ledger \<Rightarrow> bool" where
  "keyed d = (distinct (map fst d) \<and> (\<forall>(k, r)\<in>set d. k = row_key r))"

text \<open>The count the dashboard is meant to show, in the words of the specification: the
  number of data rows whose offeringId or whose label contains "Presidential".\<close>

definition spec_presidential_count :: "csv_row list \<Rightarrow> nat" where
  "spec_presidential_count rows =
     length (filter (\<lambda>r.
        cell_contains ''Presidential'' (get_or (csv_offeringId r) (Cell [])) = Some True
        \<or> cell_contains ''Presidential'' (get_or (csv_invenOffrngLabel r) (Cell [])) = Some True)
       rows)"

text \<open>The row the parser appends for an inventory entry of a day under an offering.\<close>

definition offering_row :: "offering \<Rightarrow> calendar_day \<Rightarrow> inventory \<Rightarrow> row" where
  "offering_row off day inventory =
     make_row (get_or (off_offeringLabel off) [])
       (display_offering_id (get_or (off_offeringId off) []) (get_or (off_offeringLabel off) []))
       (get_or (day_date day) []) inventory"

text \<open>The row \<open>r\<close> is the row of the inventory entry under the offering, on a path of the
  payload whose resort has units and whose day is available.\<close>

definition comes_from :: "payload \<Rightarrow> row \<Rightarrow> offering \<Rightarrow> inventory \<Rightarrow> bool" where
  "comes_from data r off inventory =
     (\<exists>res\<in>set (get_or (resorts data) []).
        truthy (get_or (res_hasAvailableUnits res) (PyBool False)) \<and>
        off \<in> set (get_or (res_resortOfferings res) []) \<and>
        (\<exists>acc\<in>set (get_or (off_accomdationClasses off) []).
           \<exists>day\<in>set (get_or (acc_calendarDays acc) []).
             truthy (get_or (day_available day) (PyBool False)) \<and>
             inventory \<in> set (get_or (day_inventoryOfferings day) []) \<and>
             r = offering_row off day inventory))"

section \<open>Example data\<close>

definition entry :: "string \<Rightarrow> string \<Rightarrow> string \<Rightarrow> inventory" where
  "entry available_count hash_key label =
     \<lparr> inv_availableCount = Some (PyStr available_count),
       inv_inventoryOfferingHashKey = Some hash_key,
       inv_invenOffrngLabel = Some label \<rparr>"

definition available_day :: "string \<Rightarrow> inventory list \<Rightarrow> calendar_day" where
  "available_day d entries =
     \<lparr> day_available = Some (PyBool True), day_date = Some d,
       day_inventoryOfferings = Some entries \<rparr>"

definition one_offering :: "string \<Rightarrow> string \<Rightarrow> calendar_day list \<Rightarrow> offering" where
  "one_offering offering_id offering_label days =
     \<lparr> off_offeringId = Some offering_id, off_offeringLabel = Some offering_label,
       off_accomdationClasses = Some [\<lparr>acc_calendarDays = Some days\<rparr>] \<rparr>"

definition one_resort :: "offering list \<Rightarrow> payload" where
  "one_resort offerings =
     \<lparr> resorts = Some [\<lparr>res_hasAvailableUnits = Some (PyBool True),
                         res_resortOfferings = Some offerings\<rparr>] \<rparr>"

text \<open>A world without files in which every write succeeds, a new watcher, and rows of one
  offering and room type.\<close>

definition ready_world :: world where
  "ready_world =
     \<lparr> files = (\<lambda>_. None), can_open = (\<lambda>_. True), write_limit = (\<lambda>_. None), console = [] \<rparr>"

definition new_watcher :: "path \<Rightarrow> watcher" where
  "new_watcher out = \<lparr> output_csv = out, unique_combinations = [] \<rparr>"

definition slot :: "string \<Rightarrow> string \<Rightarrow> string \<Rightarrow> row" where
  "slot d hash_key available_count =
     \<lparr> date = d, offeringId = ''A1'', inventoryOfferingHashKey = hash_key,
       invenOffrngLabel = ''King'', availableCount = PyStr available_count \<rparr>"

text \<open>A world without files in which the listed paths cannot be opened, and one in which
  every path can be opened and a write to the given path raises after \<open>k\<close> lines.\<close>

definition locked_world :: "path list \<Rightarrow> world" where
  "locked_world locked =
     \<lparr> files = (\<lambda>_. None), can_open = (\<lambda>p. p \<notin> set locked), write_limit = (\<lambda>_. None),
       console = [] \<rparr>"

definition short_write_world :: "path \<Rightarrow> nat \<Rightarrow> world" where
  "short_write_world p k =
     \<lparr> files = (\<lambda>_. None), can_open = (\<lambda>_. True),
       write_limit = (\<lambda>q. if q = p then Some k else None), console = [] \<rparr>"

text \<open>The world a failed write of the lines leaves: the file untouched when it could not
  be opened, and otherwise holding the lines written before the failure (after its old
  content, when the write appends).\<close>

definition after_failed_write :: "bool \<Rightarrow> path \<Rightarrow> csv_line list \<Rightarrow> world \<Rightarrow> world" where
  "after_failed_write appending p lines w =
     (if can_open w p
      then w\<lparr>files := (files w)(p \<mapsto>
             (if appending then get_or (files w p) [] else []) @ written w p lines)\<rparr>
      else w)"

section \<open>Loops that may raise\<close>

lemma rows_of_raised [simp]: "rows_of (raised out) = rows_of out"
  by (cases out) simp_all

lemma for_loop_append:
  "for_loop body (xs @ ys) s =
     (case for_loop body xs s of Raised t \<Rightarrow> Raised t | Completed t \<Rightarrow> for_loop body ys t)"
  by (induction xs arbitrary: s) (simp_all split: outcome.splits)

lemma for_loop_skip:
  assumes "\<And>s. body x s = Completed s"
  shows "for_loop body (xs @ x # ys) s = for_loop body (xs @ ys) s"
  by (simp add: for_loop_append assms split: outcome.splits)

lemma for_loop_cong_elem:
  assumes "\<And>s. body x s = body x' s"
  shows "for_loop body (xs @ x # ys) s = for_loop body (xs @ x' # ys) s"
  by (simp add: for_loop_append assms split: outcome.splits)

lemma for_loop_raised_elem:
  assumes "\<And>s. body x s = raised (body x' s)"
  shows "for_loop body (xs @ x # ys) s = raised (for_loop body (xs @ [x']) s)"
proof (cases "for_loop body xs s")
  case (Completed t)
  then show ?thesis
    by (cases "body x' t") (simp_all add: for_loop_append assms)
next
  case (Raised t)
  then show ?thesis by (simp add: for_loop_append)
qed

lemma for_loop_raised_last:
  assumes "\<And>s. body x s = Raised s"
  shows "for_loop body (xs @ x # ys) s = raised (for_loop body xs s)"
  by (cases "for_loop body xs s") (simp_all add: for_loop_append assms)

lemma for_loop_invariant:
  assumes "P s" and "\<And>x t. x \<in> set xs \<Longrightarrow> P t \<Longrightarrow> P (rows_of (body x t))"
  shows "P (rows_of (for_loop body xs s))"
  using assms
proof (induction xs arbitrary: s)
  case Nil
  then show ?case by simp
next
  case (Cons x xs)
  have step: "P (rows_of (body x s))" using Cons.prems by simp
  show ?case
  proof (cases "body x s")
    case (Completed t)
    with step have "P t" by simp
    then have "P (rows_of (for_loop body xs t))"
      using Cons.IH Cons.prems(2) by simp
    with Completed show ?thesis by simp
  next
    case (Raised t)
    with step show ?thesis by simp
  qed
qed

section \<open>A count that cannot be parsed ends the payload\<close>

lemma inventory_body_raises:
  "py_int (get_or (inv_availableCount bad) (PyStr ''0'')) = None \<Longrightarrow>
   inventory_body ol did dt bad s = Raised s"
  by (simp add: inventory_body_def)

lemma day_body_raised:
  assumes "truthy (get_or (day_available day) (PyBool False))"
    and "py_int (get_or (inv_availableCount bad) (PyStr ''0'')) = None"
  shows "day_body ol did (day\<lparr>day_inventoryOfferings := Some (I1 @ bad # I2)\<rparr>) s =
         raised (day_body ol did (day\<lparr>day_inventoryOfferings := Some I1\<rparr>) s)"
  using assms
  by (simp add: day_body_def get_or_def for_loop_raised_last inventory_body_raises)

lemma accommodation_body_raised:
  assumes "\<And>s. day_body ol did day' s = raised (day_body ol did day'' s)"
  shows "accommodation_body ol did (acc\<lparr>acc_calendarDays := Some (D1 @ day' # D2)\<rparr>) s =
         raised (accommodation_body ol did (acc\<lparr>acc_calendarDays := Some (D1 @ [day''])\<rparr>) s)"
  using for_loop_raised_elem [of "day_body ol did" day' day'' D1 D2 s, OF assms]
  by (simp add: accommodation_body_def get_or_def)

lemma offering_body_raised:
  assumes "\<And>ol did s. accommodation_body ol did acc' s = raised (accommodation_body ol did acc'' s)"
  shows "offering_body (off\<lparr>off_accomdationClasses := Some (A1 @ acc' # A2)\<rparr>) s =
         raised (offering_body (off\<lparr>off_accomdationClasses := Some (A1 @ [acc''])\<rparr>) s)"
  using for_loop_raised_elem [of "accommodation_body (get_or (off_offeringLabel off) [])
      (display_offering_id (get_or (off_offeringId off) []) (get_or (off_offeringLabel off) []))"
      acc' acc'' A1 A2 s, OF assms]
  by (simp add: offering_body_def get_or_def Let_def)

lemma resort_body_raised:
  assumes "truthy (get_or (res_hasAvailableUnits res) (PyBool False))"
    and "\<And>s. offering_body off' s = raised (offering_body off'' s)"
  shows "resort_body (res\<lparr>res_resortOfferings := Some (O1 @ off' # O2)\<rparr>) s =
         raised (resort_body (res\<lparr>res_resortOfferings := Some (O1 @ [off''])\<rparr>) s)"
  using assms(1) for_loop_raised_elem [of offering_body off' off'' O1 O2 s, OF assms(2)]
  by (simp add: resort_body_def get_or_def)

lemma parse_response_raised:
  assumes "\<And>s. resort_body res' s = raised (resort_body res'' s)"
  shows "parse_response \<lparr>resorts = Some (R1 @ res' # R2)\<rparr> =
         parse_response \<lparr>resorts = Some (R1 @ [res''])\<rparr>"
  using for_loop_raised_elem [of resort_body res' res'' R1 R2 "[]", OF assms]
  by (simp add: parse_response_def)

text \<open>
  C2 (as amended).  When the \<open>availableCount\<close> of an inventory entry cannot be parsed as an
  integer, and the entry is reached (its resort has units, its day is available), the
  parser stops at that entry: the result is the one of the payload cut off just before the
  entry.  The entries after it in the same day, the later days, accommodation classes,
  offerings and resorts contribute nothing, whatever they hold; the rows collected before the
  entry are returned and no exception leaves the parser.
\<close>

theorem parse_failure_ends_payload:
  assumes "truthy (get_or (res_hasAvailableUnits res) (PyBool False))"
    and "truthy (get_or (day_available day) (PyBool False))"
    and "py_int (get_or (inv_availableCount bad) (PyStr ''0'')) = None"
  shows "parse_response \<lparr>resorts = Some (R1 @
            res\<lparr>res_resortOfferings := Some (O1 @
              off\<lparr>off_accomdationClasses := Some (A1 @
                acc\<lparr>acc_calendarDays := Some (D1 @
                  day\<lparr>day_inventoryOfferings := Some (I1 @ bad # I2)\<rparr> # D2)\<rparr> # A2)\<rparr> # O2)\<rparr> # R2)\<rparr>
       = parse_response \<lparr>resorts = Some (R1 @
            [res\<lparr>res_resortOfferings := Some (O1 @
              [off\<lparr>off_accomdationClasses := Some (A1 @
                [acc\<lparr>acc_calendarDays := Some (D1 @
                  [day\<lparr>day_inventoryOfferings := Some I1\<rparr>])\<rparr>])\<rparr>])\<rparr>])\<rparr>"
  by (intro parse_response_raised resort_body_raised offering_body_raised
        accommodation_body_raised day_body_raised assms)

section \<open>Where the rows of the parser come from\<close>

lemma inventory_loop_rows:
  assumes "\<forall>r\<in>set s. Q r"
    and "\<And>i. i \<in> set invs \<Longrightarrow> emitted i \<Longrightarrow> Q (make_row ol did dt i)"
  shows "\<forall>r\<in>set (rows_of (for_loop (inventory_body ol did dt) invs s)). Q r"
proof (rule for_loop_invariant [where P = "\<lambda>rows. \<forall>r\<in>set rows. Q r"])
  show "\<forall>r\<in>set s. Q r" by (rule assms(1))
next
  fix i t
  assume "i \<in> set invs" and "\<forall>r\<in>set t. Q r"
  then show "\<forall>r\<in>set (rows_of (inventory_body ol did dt i t)). Q r"
    using assms(2) [of i]
    by (auto simp: inventory_body_def emitted_def split: option.splits)
qed

lemma day_body_rows:
  assumes "\<forall>r\<in>set s. Q r"
    and "\<And>i. truthy (get_or (day_available day) (PyBool False)) \<Longrightarrow>
           i \<in> set (get_or (day_inventoryOfferings day) []) \<Longrightarrow> emitted i \<Longrightarrow>
           Q (make_row ol did (get_or (day_date day) []) i)"
  shows "\<forall>r\<in>set (rows_of (day_body ol did day s)). Q r"
proof (cases "truthy (get_or (day_available day) (PyBool False))")
  case True
  then show ?thesis
    using inventory_loop_rows [of s Q "get_or (day_inventoryOfferings day) []" ol did
        "get_or (day_date day) []"] assms
    by (simp add: day_body_def)
next
  case False
  then show ?thesis using assms(1) by (simp add: day_body_def)
qed

lemma accommodation_body_rows:
  assumes "\<forall>r\<in>set s. Q r"
    and "\<And>day i. day \<in> set (get_or (acc_calendarDays acc) []) \<Longrightarrow>
           truthy (get_or (day_available day) (PyBool False)) \<Longrightarrow>
           i \<in> set (get_or (day_inventoryOfferings day) []) \<Longrightarrow> emitted i \<Longrightarrow>
           Q (make_row ol did (get_or (day_date day) []) i)"
  shows "\<forall>r\<in>set (rows_of (accommodation_body ol did acc s)). Q r"
  unfolding accommodation_body_def
proof (rule for_loop_invariant [where P = "\<lambda>rows. \<forall>r\<in>set rows. Q r"])
  show "\<forall>r\<in>set s. Q r" by (rule assms(1))
next
  fix day t
  assume "day \<in> set (get_or (acc_calendarDays acc) [])" and "\<forall>r\<in>set t. Q r"
  then show "\<forall>r\<in>set (rows_of (day_body ol did day t)). Q r"
    using assms(2) [of day] by (intro day_body_rows) simp_all
qed

lemma offering_body_rows:
  assumes "\<forall>r\<in>set s. Q r"
    and "\<And>acc day i. acc \<in> set (get_or (off_accomdationClasses off) []) \<Longrightarrow>
           day \<in> set (get_or (acc_calendarDays acc) []) \<Longrightarrow>
           truthy (get_or (day_available day) (PyBool False)) \<Longrightarrow>
           i \<in> set (get_or (day_inventoryOfferings day) []) \<Longrightarrow> emitted i \<Longrightarrow>
           Q (offering_row off day i)"
  shows "\<forall>r\<in>set (rows_of (offering_body off s)). Q r"
  unfolding offering_body_def Let_def
proof (rule for_loop_invariant [where P = "\<lambda>rows. \<forall>r\<in>set rows. Q r"])
  show "\<forall>r\<in>set s. Q r" by (rule assms(1))
next
  fix acc t
  assume "acc \<in> set (get_or (off_accomdationClasses off) [])" and "\<forall>r\<in>set t. Q r"
  then show "\<forall>r\<in>set (rows_of (accommodation_body (get_or (off_offeringLabel off) [])
      (display_offering_id (get_or (off_offeringId off) []) (get_or (off_offeringLabel off) []))
      acc t)). Q r"
    using assms(2) [of acc] by (intro accommodation_body_rows) (simp_all add: offering_row_def)
qed

lemma resort_body_rows:
  assumes "\<forall>r\<in>set s. Q r"
    and "\<And>off acc day i. truthy (get_or (res_hasAvailableUnits res) (PyBool False)) \<Longrightarrow>
           off \<in> set (get_or (res_resortOfferings res) []) \<Longrightarrow>
           acc \<in> set (get_or (off_accomdationClasses off) []) \<Longrightarrow>
           day \<in> set (get_or (acc_calendarDays acc) []) \<Longrightarrow>
           truthy (get_or (day_available day) (PyBool False)) \<Longrightarrow>
           i \<in> set (get_or (day_inventoryOfferings day) []) \<Longrightarrow> emitted i \<Longrightarrow>
           Q (offering_row off day i)"
  shows "\<forall>r\<in>set (rows_of (resort_body res s)). Q r"
proof (cases "truthy (get_or (res_hasAvailableUnits res) (PyBool False))")
  case False
  then show ?thesis using assms(1) by (simp add: resort_body_def)
next
  case True
  have "\<forall>r\<in>set (rows_of (for_loop offering_body (get_or (res_resortOfferings res) []) s)). Q r"
  proof (rule for_loop_invariant [where P = "\<lambda>rows. \<forall>r\<in>set rows. Q r"])
    show "\<forall>r\<in>set s. Q r" by (rule assms(1))
  next
    fix off t
    assume "off \<in> set (get_or (res_resortOfferings res) [])" and "\<forall>r\<in>set t. Q r"
    then show "\<forall>r\<in>set (rows_of (offering_body off t)). Q r"
      using assms(2) [OF True, of off] by (intro offering_body_rows) simp_all
  qed
  with True show ?thesis by (simp add: resort_body_def)
qed

lemma parse_response_rows:
  assumes "r \<in> set (parse_response data)"
  shows "\<exists>off inventory. comes_from data r off inventory \<and> emitted inventory"
proof (cases "resorts data")
  case None
  with assms show ?thesis by (simp add: parse_response_def)
next
  case (Some rs)
  let ?Q = "\<lambda>r. \<exists>off inventory. comes_from data r off inventory \<and> emitted inventory"
  have "\<forall>r\<in>set (rows_of (for_loop resort_body rs [])). ?Q r"
  proof (rule for_loop_invariant [where P = "\<lambda>rows. \<forall>r\<in>set rows. ?Q r"])
    show "\<forall>r\<in>set []. ?Q r" by simp
  next
    fix res t
    assume res: "res \<in> set rs" and t: "\<forall>r\<in>set t. ?Q r"
    show "\<forall>r\<in>set (rows_of (resort_body res t)). ?Q r"
    proof (rule resort_body_rows [OF t])
      fix off acc day i
      assume "truthy (get_or (res_hasAvailableUnits res) (PyBool False))"
        "off \<in> set (get_or (res_resortOfferings res) [])"
        "acc \<in> set (get_or (off_accomdationClasses off) [])"
        "day \<in> set (get_or (acc_calendarDays acc) [])"
        "truthy (get_or (day_available day) (PyBool False))"
        "i \<in> set (get_or (day_inventoryOfferings day) [])" "emitted i"
      moreover have "res \<in> set (get_or (resorts data) [])"
        using res Some by (simp add: get_or_def)
      ultimately show "?Q (offering_row off day i)"
        unfolding comes_from_def by blast
    qed
  qed
  with assms Some show ?thesis
    by (simp add: parse_response_def split: if_splits)
qed

section \<open>What the parser filters out\<close>

lemma day_body_skip_inventory:
  assumes "py_int (get_or (inv_availableCount i) (PyStr ''0'')) = Some n" and "n \<le> 0"
  shows "day_body ol did (day\<lparr>day_inventoryOfferings := Some (I1 @ i # I2)\<rparr>) s =
         day_body ol did (day\<lparr>day_inventoryOfferings := Some (I1 @ I2)\<rparr>) s"
proof -
  have "\<And>dt t. inventory_body ol did dt i t = Completed t"
    using assms by (simp add: inventory_body_def)
  then show ?thesis
    by (simp add: day_body_def get_or_def for_loop_skip)
qed

lemma accommodation_body_skip_day:
  assumes "\<not> truthy (get_or (day_available day) (PyBool False))"
  shows "accommodation_body ol did (acc\<lparr>acc_calendarDays := Some (D1 @ day # D2)\<rparr>) s =
         accommodation_body ol did (acc\<lparr>acc_calendarDays := Some (D1 @ D2)\<rparr>) s"
proof -
  have "\<And>t. day_body ol did day t = Completed t"
    using assms by (simp add: day_body_def)
  then show ?thesis
    by (simp add: accommodation_body_def get_or_def for_loop_skip)
qed

lemma accommodation_body_cong_day:
  assumes "\<And>t. day_body ol did day' t = day_body ol did day'' t"
  shows "accommodation_body ol did (acc\<lparr>acc_calendarDays := Some (D1 @ day' # D2)\<rparr>) s =
         accommodation_body ol did (acc\<lparr>acc_calendarDays := Some (D1 @ day'' # D2)\<rparr>) s"
  using for_loop_cong_elem [of "day_body ol did" day' day'' D1 D2 s, OF assms]
  by (simp add: accommodation_body_def get_or_def)

lemma offering_body_cong_acc:
  assumes "\<And>ol did t. accommodation_body ol did acc' t = accommodation_body ol did acc'' t"
  shows "offering_body (off\<lparr>off_accomdationClasses := Some (A1 @ acc' # A2)\<rparr>) s =
         offering_body (off\<lparr>off_accomdationClasses := Some (A1 @ acc'' # A2)\<rparr>) s"
  using for_loop_cong_elem [of "accommodation_body (get_or (off_offeringLabel off) [])
      (display_offering_id (get_or (off_offeringId off) []) (get_or (off_offeringLabel off) []))"
      acc' acc'' A1 A2 s, OF assms]
  by (simp add: offering_body_def get_or_def Let_def)

lemma resort_body_cong_offering:
  assumes "\<And>t. offering_body off' t = offering_body off'' t"
  shows "resort_body (res\<lparr>res_resortOfferings := Some (O1 @ off' # O2)\<rparr>) s =
         resort_body (res\<lparr>res_resortOfferings := Some (O1 @ off'' # O2)\<rparr>) s"
  using for_loop_cong_elem [of offering_body off' off'' O1 O2 s, OF assms]
  by (simp add: resort_body_def get_or_def)

lemma parse_response_cong_resort:
  assumes "\<And>t. resort_body res' t = resort_body res'' t"
  shows "parse_response \<lparr>resorts = Some (R1 @ res' # R2)\<rparr> =
         parse_response \<lparr>resorts = Some (R1 @ res'' # R2)\<rparr>"
  using for_loop_cong_elem [of resort_body res' res'' R1 R2 "[]", OF assms]
  by (simp add: parse_response_def)

lemma parse_response_skip_resort:
  assumes "\<not> truthy (get_or (res_hasAvailableUnits res) (PyBool False))"
  shows "parse_response \<lparr>resorts = Some (R1 @ res # R2)\<rparr> =
         parse_response \<lparr>resorts = Some (R1 @ R2)\<rparr>"
proof -
  have skip: "\<And>t. resort_body res t = Completed t"
    using assms by (simp add: resort_body_def)
  show ?thesis
  proof (cases "R1 @ R2 = []")
    case True
    then show ?thesis by (simp add: parse_response_def skip)
  next
    case False
    then show ?thesis
      using for_loop_skip [of resort_body res R1 R2 "[]", OF skip]
      by (simp add: parse_response_def)
  qed
qed

lemma emitted_count:
  assumes "comes_from data r off i" and "emitted i"
  shows "\<exists>n. py_int (availableCount r) = Some n \<and> 0 < n"
  using assms
  by (auto simp: comes_from_def emitted_def offering_row_def make_row_def split: option.splits)

text \<open>
  C4.  The parser returns no row for a payload without \<open>resorts\<close> or with an empty list of
  resorts.  A resort whose \<open>hasAvailableUnits\<close> is falsy, a calendar day whose \<open>available\<close>
  is falsy and an inventory entry whose \<open>availableCount\<close> parses to an integer that is not
  positive contribute nothing: the result is the one of the payload without them.  Every
  row that is returned has an \<open>availableCount\<close> that parses to an integer greater than 0.
\<close>

theorem filter_correctness:
  "(resorts data0 = None \<or> resorts data0 = Some [] \<longrightarrow> parse_response data0 = [])
   \<and> (\<not> truthy (get_or (res_hasAvailableUnits res0) (PyBool False)) \<longrightarrow>
        parse_response \<lparr>resorts = Some (R1 @ res0 # R2)\<rparr> =
        parse_response \<lparr>resorts = Some (R1 @ R2)\<rparr>)
   \<and> (\<not> truthy (get_or (day_available day0) (PyBool False)) \<longrightarrow>
        parse_response \<lparr>resorts = Some (R1 @
          res\<lparr>res_resortOfferings := Some (O1 @
            off\<lparr>off_accomdationClasses := Some (A1 @
              acc\<lparr>acc_calendarDays := Some (D1 @ day0 # D2)\<rparr> # A2)\<rparr> # O2)\<rparr> # R2)\<rparr> =
        parse_response \<lparr>resorts = Some (R1 @
          res\<lparr>res_resortOfferings := Some (O1 @
            off\<lparr>off_accomdationClasses := Some (A1 @
              acc\<lparr>acc_calendarDays := Some (D1 @ D2)\<rparr> # A2)\<rparr> # O2)\<rparr> # R2)\<rparr>)
   \<and> (py_int (get_or (inv_availableCount i0) (PyStr ''0'')) = Some n \<and> n \<le> 0 \<longrightarrow>
        parse_response \<lparr>resorts = Some (R1 @
          res\<lparr>res_resortOfferings := Some (O1 @
            off\<lparr>off_accomdationClasses := Some (A1 @
              acc\<lparr>acc_calendarDays := Some (D1 @
                day\<lparr>day_inventoryOfferings := Some (I1 @ i0 # I2)\<rparr> # D2)\<rparr> # A2)\<rparr> # O2)\<rparr> # R2)\<rparr> =
        parse_response \<lparr>resorts = Some (R1 @
          res\<lparr>res_resortOfferings := Some (O1 @
            off\<lparr>off_accomdationClasses := Some (A1 @
              acc\<lparr>acc_calendarDays := Some (D1 @
                day\<lparr>day_inventoryOfferings := Some (I1 @ I2)\<rparr> # D2)\<rparr> # A2)\<rparr> # O2)\<rparr> # R2)\<rparr>)
   \<and> (r \<in> set (parse_response data) \<longrightarrow>
        (\<exists>m. py_int (availableCount r) = Some m \<and> 0 < m))"
proof (intro conjI impI)
  assume "resorts data0 = None \<or> resorts data0 = Some []"
  then show "parse_response data0 = []" by (auto simp: parse_response_def)
next
  assume "\<not> truthy (get_or (res_hasAvailableUnits res0) (PyBool False))"
  then show "parse_response \<lparr>resorts = Some (R1 @ res0 # R2)\<rparr> =
        parse_response \<lparr>resorts = Some (R1 @ R2)\<rparr>"
    by (rule parse_response_skip_resort)
next
  assume "\<not> truthy (get_or (day_available day0) (PyBool False))"
  then show "parse_response \<lparr>resorts = Some (R1 @
          res\<lparr>res_resortOfferings := Some (O1 @
            off\<lparr>off_accomdationClasses := Some (A1 @
              acc\<lparr>acc_calendarDays := Some (D1 @ day0 # D2)\<rparr> # A2)\<rparr> # O2)\<rparr> # R2)\<rparr> =
        parse_response \<lparr>resorts = Some (R1 @
          res\<lparr>res_resortOfferings := Some (O1 @
            off\<lparr>off_accomdationClasses := Some (A1 @
              acc\<lparr>acc_calendarDays := Some (D1 @ D2)\<rparr> # A2)\<rparr> # O2)\<rparr> # R2)\<rparr>"
    by (intro parse_response_cong_resort resort_body_cong_offering offering_body_cong_acc
          accommodation_body_skip_day)
next
  assume "py_int (get_or (inv_availableCount i0) (PyStr ''0'')) = Some n \<and> n \<le> 0"
  then show "parse_response \<lparr>resorts = Some (R1 @
          res\<lparr>res_resortOfferings := Some (O1 @
            off\<lparr>off_accomdationClasses := Some (A1 @
              acc\<lparr>acc_calendarDays := Some (D1 @
                day\<lparr>day_inventoryOfferings := Some (I1 @ i0 # I2)\<rparr> # D2)\<rparr> # A2)\<rparr> # O2)\<rparr> # R2)\<rparr> =
        parse_response \<lparr>resorts = Some (R1 @
          res\<lparr>res_resortOfferings := Some (O1 @
            off\<lparr>off_accomdationClasses := Some (A1 @
              acc\<lparr>acc_calendarDays := Some (D1 @
                day\<lparr>day_inventoryOfferings := Some (I1 @ I2)\<rparr> # D2)\<rparr> # A2)\<rparr> # O2)\<rparr> # R2)\<rparr>"
    by (intro parse_response_cong_resort resort_body_cong_offering offering_body_cong_acc
          accommodation_body_cong_day day_body_skip_inventory) auto
next
  assume "r \<in> set (parse_response data)"
  then show "\<exists>m. py_int (availableCount r) = Some m \<and> 0 < m"
    using parse_response_rows [of r data] emitted_count by blast
qed

text \<open>
  C5.  Every row the parser returns is the row of an inventory entry under an offering of
  the payload.  When the \<open>offeringLabel\<close> contains "Presidential Reserve", the \<open>offeringId\<close> of
  the row is the offering's followed by " Presidential Reserve" if the offering's does not
  contain the phrase, and the offering's unchanged if it does; the label of the row is the
  entry's followed by " (Presidential Reserve)" if the entry's does not contain the phrase,
  and unchanged if it does.  When the \<open>offeringLabel\<close> does not contain the phrase, both are
  unchanged.
\<close>

theorem presidential_reserve_normalization:
  assumes "r \<in> set (parse_response data)"
  shows "\<exists>off inventory. comes_from data r off inventory \<and>
     (let offering_id = get_or (off_offeringId off) [];
          offering_label = get_or (off_offeringLabel off) [];
          label = get_or (inv_invenOffrngLabel inventory) []
      in (contains ''Presidential Reserve'' offering_label \<and>
            \<not> contains ''Presidential Reserve'' offering_id \<longrightarrow>
            offeringId r = offering_id @ '' Presidential Reserve'')
       \<and> (contains ''Presidential Reserve'' offering_label \<and>
            contains ''Presidential Reserve'' offering_id \<longrightarrow> offeringId r = offering_id)
       \<and> (\<not> contains ''Presidential Reserve'' offering_label \<longrightarrow>
            offeringId r = offering_id \<and> invenOffrngLabel r = label)
       \<and> (contains ''Presidential Reserve'' offering_label \<and>
            \<not> contains ''Presidential Reserve'' label \<longrightarrow>
            invenOffrngLabel r = label @ '' (Presidential Reserve)'')
       \<and> (contains ''Presidential Reserve'' offering_label \<and>
            contains ''Presidential Reserve'' label \<longrightarrow> invenOffrngLabel r = label))"
proof -
  obtain off i where origin: "comes_from data r off i"
    using parse_response_rows [OF assms] by blast
  then obtain day where r: "r = offering_row off day i"
    unfolding comes_from_def by blast
  show ?thesis
    using origin unfolding r
    by (intro exI [of _ off] exI [of _ i])
      (simp add: offering_row_def make_row_def display_offering_id_def inventory_label_def Let_def)
qed

section \<open>The parser on concrete payloads\<close>

lemmas parser_defs = parse_response_def resort_body_def offering_body_def
  accommodation_body_def day_body_def inventory_body_def make_row_def display_offering_id_def
  inventory_label_def get_or_def int_of_str_def strip_def is_space_def digits_def is_digit_def
  digit_val_def max_str_digits_def one_resort_def one_offering_def available_day_def entry_def

text \<open>
  C2 as stated fails: with the entries "abc" and "2" under one day, the second entry is a
  sibling of the one that cannot be parsed and would give a row on its own, but the parser
  returns nothing.
\<close>

theorem sibling_entries_lost_counterexample:
  "parse_response (one_resort [one_offering ''A1'' ''Suite''
      [available_day ''2025-06-01'' [entry ''abc'' ''h0'' ''King'', entry ''2'' ''h1'' ''Queen'']]]) = []
   \<and> parse_response (one_resort [one_offering ''A1'' ''Suite''
      [available_day ''2025-06-01'' [entry ''2'' ''h1'' ''Queen'']]]) =
     [\<lparr>date = ''2025-06-01'', offeringId = ''A1'', inventoryOfferingHashKey = ''h1'',
       invenOffrngLabel = ''Queen'', availableCount = PyStr ''2''\<rparr>]"
  by (simp add: parser_defs)

theorem parse_failure_ends_payload_witness:
  "parse_response (one_resort [one_offering ''A1'' ''Suite''
      [available_day ''2025-06-01''
         [entry ''1'' ''h0'' ''King'', entry ''abc'' ''h1'' ''Queen'', entry ''3'' ''h2'' ''Twin''],
       available_day ''2025-06-02'' [entry ''4'' ''h3'' ''King'']]]) =
   [\<lparr>date = ''2025-06-01'', offeringId = ''A1'', inventoryOfferingHashKey = ''h0'',
       invenOffrngLabel = ''King'', availableCount = PyStr ''1''\<rparr>]"
  using parse_failure_ends_payload [where
      res = "\<lparr>res_hasAvailableUnits = Some (PyBool True), res_resortOfferings = None\<rparr>"
      and day = "available_day ''2025-06-01'' []"
      and bad = "entry ''abc'' ''h1'' ''Queen''"
      and ?R1.0 = "[]" and ?R2.0 = "[]" and ?O1.0 = "[]" and ?O2.0 = "[]"
      and off = "one_offering ''A1'' ''Suite'' []" and ?A1.0 = "[]" and ?A2.0 = "[]"
      and acc = "\<lparr>acc_calendarDays = None\<rparr>" and ?D1.0 = "[]"
      and ?D2.0 = "[available_day ''2025-06-02'' [entry ''4'' ''h3'' ''King'']]"
      and ?I1.0 = "[entry ''1'' ''h0'' ''King'']" and ?I2.0 = "[entry ''3'' ''h2'' ''Twin'']"]
  by (simp add: parser_defs)

theorem filter_correctness_witness:
  "parse_response \<lparr>resorts = Some []\<rparr> = []
   \<and> parse_response \<lparr>resorts = Some
        [\<lparr>res_hasAvailableUnits = Some (PyBool False),
          res_resortOfferings = Some [one_offering ''A1'' ''Suite''
            [available_day ''2025-06-01'' [entry ''2'' ''h1'' ''King'']]]\<rparr>]\<rparr> = []
   \<and> parse_response (one_resort [one_offering ''A1'' ''Suite''
        [\<lparr>day_available = Some (PyBool False), day_date = Some ''2025-06-01'',
          day_inventoryOfferings = Some [entry ''2'' ''h1'' ''King'']\<rparr>]]) = []
   \<and> parse_response (one_resort [one_offering ''A1'' ''Suite''
        [available_day ''2025-06-01'' [entry ''0'' ''h1'' ''King'']]]) = []
   \<and> py_int (availableCount \<lparr>date = ''2025-06-01'', offeringId = ''A1'',
        inventoryOfferingHashKey = ''h1'', invenOffrngLabel = ''King'',
        availableCount = PyStr ''2''\<rparr>) = Some 2"
  using filter_correctness [where
      ?data0.0 = "\<lparr>resorts = Some []\<rparr>"
      and ?res0.0 = "\<lparr>res_hasAvailableUnits = Some (PyBool False),
          res_resortOfferings = Some [one_offering ''A1'' ''Suite''
            [available_day ''2025-06-01'' [entry ''2'' ''h1'' ''King'']]]\<rparr>"
      and ?R1.0 = "[]" and ?R2.0 = "[]" and ?O1.0 = "[]" and ?O2.0 = "[]"
      and ?A1.0 = "[]" and ?A2.0 = "[]" and ?D1.0 = "[]" and ?D2.0 = "[]"
      and ?I1.0 = "[]" and ?I2.0 = "[]"
      and res = "\<lparr>res_hasAvailableUnits = Some (PyBool True), res_resortOfferings = None\<rparr>"
      and off = "one_offering ''A1'' ''Suite'' []"
      and acc = "\<lparr>acc_calendarDays = None\<rparr>"
      and day = "available_day ''2025-06-01'' []"
      and ?day0.0 = "\<lparr>day_available = Some (PyBool False), day_date = Some ''2025-06-01'',
          day_inventoryOfferings = Some [entry ''2'' ''h1'' ''King'']\<rparr>"
      and ?i0.0 = "entry ''0'' ''h1'' ''King''" and n = 0
      and data = "one_resort [one_offering ''A1'' ''Suite''
        [available_day ''2025-06-01'' [entry ''2'' ''h1'' ''King'']]]"
      and r = "\<lparr>date = ''2025-06-01'', offeringId = ''A1'',
        inventoryOfferingHashKey = ''h1'', invenOffrngLabel = ''King'',
        availableCount = PyStr ''2''\<rparr>"]
  by (simp add: parser_defs)

theorem presidential_reserve_normalization_witness:
  "\<lparr>date = ''2025-06-01'', offeringId = ''WYN123 Presidential Reserve'',
     inventoryOfferingHashKey = ''h1'', invenOffrngLabel = ''King Suite (Presidential Reserve)'',
     availableCount = PyStr ''2''\<rparr>
   \<in> set (parse_response (one_resort [one_offering ''WYN123'' ''Presidential Reserve Suite''
        [available_day ''2025-06-01'' [entry ''2'' ''h1'' ''King Suite'']]]))"
  using presidential_reserve_normalization [where
      r = "\<lparr>date = ''2025-06-01'', offeringId = ''WYN123 Presidential Reserve'',
        inventoryOfferingHashKey = ''h1'', invenOffrngLabel = ''King Suite (Presidential Reserve)'',
        availableCount = PyStr ''2''\<rparr>"
      and data = "one_resort [one_offering ''WYN123'' ''Presidential Reserve Suite''
        [available_day ''2025-06-01'' [entry ''2'' ''h1'' ''King Suite'']]]"]
  by (simp add: parser_defs)

section \<open>The ledger keeps the first row of every key\<close>

lemma keep_first_eq:
  "keep_first r d = (if dict_contains (row_key r) d then d else d @ [(row_key r, r)])"
  by (simp add: keep_first_def dict_set_def dict_contains_def)

lemma insert_row_eq:
  "insert_row r (d, n) =
     (if dict_contains (row_key r) d then (d, n) else (d @ [(row_key r, r)], n @ [r]))"
  by (simp add: insert_row_def dict_set_def dict_contains_def)

lemma fst_fold_insert_row:
  "fst (fold insert_row rows (d, n)) = fold keep_first rows d"
  by (induction rows arbitrary: d n) (simp_all add: insert_row_eq keep_first_eq)

lemma dict_contains_keep_first:
  "dict_contains k (keep_first r d) = (dict_contains k d \<or> k = row_key r)"
  by (auto simp: keep_first_eq dict_contains_def)

lemma dict_contains_fold:
  "dict_contains k (fold keep_first rows d) = (dict_contains k d \<or> k \<in> row_key ` set rows)"
  by (induction rows arbitrary: d) (auto simp: dict_contains_keep_first)

lemma fold_insert_row_present:
  "\<forall>r\<in>set rows. dict_contains (row_key r) d \<Longrightarrow> fold insert_row rows (d, n) = (d, n)"
  by (induction rows) (simp_all add: insert_row_eq)

lemma fold_keep_first_present:
  "\<forall>r\<in>set rows. dict_contains (row_key r) d \<Longrightarrow> fold keep_first rows d = d"
  by (induction rows) (simp_all add: keep_first_eq)

lemma keyed_empty: "keyed []"
  by (simp add: keyed_def)

lemma keyed_keep_first: "keyed d \<Longrightarrow> keyed (keep_first r d)"
  by (auto simp: keyed_def keep_first_eq dict_contains_def)

lemma keyed_fold: "keyed d \<Longrightarrow> keyed (fold keep_first rows d)"
  by (induction rows arbitrary: d) (simp_all add: keyed_keep_first)

lemma keyed_values: "keyed d \<Longrightarrow> map row_key (dict_values d) = map fst d"
  by (induction d) (auto simp: keyed_def dict_values_def)

lemma keyed_distinct_values: "keyed d \<Longrightarrow> distinct (map row_key (dict_values d))"
  by (simp add: keyed_values) (simp add: keyed_def)

lemma map_of_keep_first:
  "map_of (keep_first r d) k =
     (case map_of d k of Some v \<Rightarrow> Some v | None \<Rightarrow> if row_key r = k then Some r else None)"
proof (cases "dict_contains (row_key r) d")
  case True
  then have "map_of d (row_key r) \<noteq> None"
    by (simp add: dict_contains_def map_of_eq_None_iff)
  with True show ?thesis
    by (auto simp: keep_first_eq split: option.splits)
next
  case False
  then show ?thesis
    by (simp add: keep_first_eq map_add_def split: option.splits)
qed

lemma map_of_fold_keep_first:
  "map_of (fold keep_first rows d) k =
     (case map_of d k of Some v \<Rightarrow> Some v | None \<Rightarrow> find (\<lambda>r. row_key r = k) rows)"
  by (induction rows arbitrary: d) (auto simp: map_of_keep_first split: option.splits)

lemma values_subset_fold:
  "set (dict_values (fold keep_first rows d)) \<subseteq> set (dict_values d) \<union> set rows"
proof (induction rows arbitrary: d)
  case Nil
  then show ?case by simp
next
  case (Cons r rows)
  have "set (dict_values (keep_first r d)) \<subseteq> set (dict_values d) \<union> {r}"
    by (auto simp: keep_first_eq dict_values_def)
  with Cons [of "keep_first r d"] show ?case by auto
qed

lemma keys_fold:
  "set (map fst (fold keep_first rows d)) = set (map fst d) \<union> row_key ` set rows"
proof -
  have "\<And>k. (k \<in> set (map fst (fold keep_first rows d))) =
      (k \<in> set (map fst d) \<or> k \<in> row_key ` set rows)"
    using dict_contains_fold unfolding dict_contains_def .
  then show ?thesis by blast
qed

lemma distinct_sort_key: "distinct (map g (sort_key f xs)) = distinct (map g xs)"
proof -
  have "mset (map g (sort_key f xs)) = mset (map g xs)" by simp
  then show ?thesis by (rule mset_eq_imp_distinct_iff)
qed

lemma unique_combinations_append_to_csv:
  "unique_combinations (fst (append_to_csv rows st)) =
     fold keep_first rows (unique_combinations (fst st))"
proof -
  obtain self w where st: "st = (self, w)" by (cases st)
  obtain d n where f: "fold insert_row rows (unique_combinations self, []) = (d, n)"
    by (cases "fold insert_row rows (unique_combinations self, [])")
  then have "d = fold keep_first rows (unique_combinations self)"
    using fst_fold_insert_row [of rows "unique_combinations self" "[]"] by simp
  then show ?thesis
    by (simp add: st append_to_csv_def f Let_def split: outcome.splits)
qed

lemma output_csv_append_to_csv:
  "output_csv (fst (append_to_csv rows st)) = output_csv (fst st)"
proof -
  obtain self w where st: "st = (self, w)" by (cases st)
  obtain d n where f: "fold insert_row rows (unique_combinations self, []) = (d, n)"
    by (cases "fold insert_row rows (unique_combinations self, [])")
  show ?thesis
    by (simp add: st append_to_csv_def f Let_def split: outcome.splits)
qed

lemma unique_combinations_process_payload:
  "unique_combinations (fst (process_payload data st)) =
     fold keep_first (parse_response data) (unique_combinations (fst st))"
  by (simp add: process_payload_def Let_def unique_combinations_append_to_csv)

lemma unique_combinations_fold_process_payload:
  "unique_combinations (fst (fold process_payload ps st)) =
     fold keep_first (concat (map parse_response ps)) (unique_combinations (fst st))"
  by (induction ps arbitrary: st) (simp_all add: unique_combinations_process_payload)

lemma unique_combinations_fold_append_single:
  "unique_combinations (fst (fold (\<lambda>r. append_to_csv [r]) rows st)) =
     fold keep_first rows (unique_combinations (fst st))"
  by (induction rows arbitrary: st) (simp_all add: unique_combinations_append_to_csv)

lemma unique_combinations_fold_append:
  "unique_combinations (fst (fold append_to_csv batches st)) =
     fold keep_first (concat batches) (unique_combinations (fst st))"
  by (induction batches arbitrary: st) (simp_all add: unique_combinations_append_to_csv)

lemma append_to_csv_present:
  assumes "\<forall>r\<in>set rows. dict_contains (row_key r) (unique_combinations (fst st))"
  shows "append_to_csv rows st = st"
proof -
  obtain self w where st: "st = (self, w)" by (cases st)
  have "fold insert_row rows (unique_combinations self, []) = (unique_combinations self, [])"
    using assms by (intro fold_insert_row_present) (simp add: st)
  then show ?thesis by (simp add: st append_to_csv_def)
qed

lemma append_to_csv_twice: "append_to_csv rows (append_to_csv rows st) = append_to_csv rows st"
  by (rule append_to_csv_present)
    (simp add: unique_combinations_append_to_csv dict_contains_fold)

text \<open>
  C1.  Starting from an empty ledger and offering any batches of rows through
  \<open>_append_to_csv\<close>: the stored rows have pairwise distinct identity keys, also in the
  sorted snapshot; the row stored under a key is the first row offered with that key; and
  offering a row whose key is present changes nothing, neither the ledger nor the file.  The
  rows \<open>aggregate_by_date\<close> returns have pairwise distinct identity keys as well.
\<close>

theorem ledger_identity_unique:
  assumes "unique_combinations (fst st) = []"
  shows "let st' = fold append_to_csv batches st; L = unique_combinations (fst st') in
           distinct (map row_key (dict_values L))
         \<and> distinct (map row_key (sorted_data L))
         \<and> (\<forall>k. map_of L k = find (\<lambda>x. row_key x = k) (concat batches))
         \<and> (dict_contains (row_key r) L \<longrightarrow> append_to_csv [r] st' = st')
         \<and> distinct (map row_key (aggregate_by_date rows))"
proof -
  define st' where "st' = fold append_to_csv batches st"
  define L where "L = unique_combinations (fst st')"
  have L: "L = fold keep_first (concat batches) []"
    by (simp add: L_def st'_def unique_combinations_fold_append assms)
  have keyed: "keyed L" unfolding L by (intro keyed_fold keyed_empty)
  have 1: "distinct (map row_key (dict_values L))"
    using keyed by (rule keyed_distinct_values)
  have 2: "distinct (map row_key (sorted_data L))"
    using 1 by (simp add: sorted_data_def distinct_sort_key)
  have 3: "\<forall>k. map_of L k = find (\<lambda>x. row_key x = k) (concat batches)"
    by (simp add: L map_of_fold_keep_first)
  have 4: "dict_contains (row_key r) L \<longrightarrow> append_to_csv [r] st' = st'"
    by (auto simp: L_def intro: append_to_csv_present)
  have "keyed (fold keep_first rows [])" by (intro keyed_fold keyed_empty)
  then have 5: "distinct (map row_key (aggregate_by_date rows))"
    by (simp add: aggregate_by_date_def distinct_sort_key keyed_distinct_values)
  show ?thesis
    using 1 2 3 4 5 by (simp add: Let_def st'_def [symmetric] L_def [symmetric])
qed

text \<open>
  C7.  Ingesting a payload a second time changes nothing in the watcher: the ledger, the
  file and the console are those after the first ingestion.  In the live scanner the second
  \<open>update_csv_realtime\<close> leaves the ledger and the file as they were (only \<open>all_data\<close>, the
  list of everything parsed, grows).
\<close>

theorem ingest_twice_idempotent:
  "process_payload data (process_payload data st) = process_payload data st
   \<and> (let st1 = update_csv_realtime data st0; st2 = update_csv_realtime data st1 in
        rt_unique_combinations (fst st2) = rt_unique_combinations (fst st1)
        \<and> output_file (fst st2) = output_file (fst st1)
        \<and> snd st2 = snd st1)"
proof
  show "process_payload data (process_payload data st) = process_payload data st"
    by (simp add: process_payload_def Let_def append_to_csv_twice)
next
  obtain self w where st0: "st0 = (self, w)" by (cases st0)
  let ?rows = "parse_response data"
  obtain d n where f: "fold insert_row ?rows (rt_unique_combinations self, []) = (d, n)"
    by (cases "fold insert_row ?rows (rt_unique_combinations self, [])")
  then have d: "d = fold keep_first ?rows (rt_unique_combinations self)"
    using fst_fold_insert_row [of ?rows "rt_unique_combinations self" "[]"] by simp
  have "\<forall>r\<in>set ?rows. dict_contains (row_key r) d"
    by (simp add: d dict_contains_fold)
  then have again: "fold insert_row ?rows (d, []) = (d, [])"
    by (rule fold_insert_row_present)
  show "let st1 = update_csv_realtime data st0; st2 = update_csv_realtime data st1 in
        rt_unique_combinations (fst st2) = rt_unique_combinations (fst st1)
        \<and> output_file (fst st2) = output_file (fst st1)
        \<and> snd st2 = snd st1"
    by (simp add: st0 update_csv_realtime_def Let_def f again split: outcome.splits)
qed

lemma write_csv_completes:
  assumes "\<not> write_raises w p (Suc (length rows))"
  shows "write_csv p rows w =
     Completed (w\<lparr>files := (files w)(p \<mapsto> Header fieldnames # map Record rows)\<rparr>)"
proof -
  have "can_open w p" using assms by (simp add: write_raises_def split: if_splits)
  moreover have "written w p (Header fieldnames # map Record rows) =
      Header fieldnames # map Record rows"
    using assms by (simp add: write_raises_def written_def split: if_splits option.splits)
  ultimately show ?thesis using assms by (simp add: write_csv_def Let_def)
qed

lemma write_csv_raises:
  assumes "write_raises w p (Suc (length rows))"
  shows "write_csv p rows w =
     Raised (if can_open w p
             then w\<lparr>files := (files w)(p \<mapsto> written w p (Header fieldnames # map Record rows))\<rparr>
             else w)"
  using assms by (simp add: write_csv_def Let_def)

lemma length_sorted_data: "length (sorted_data d) = length d"
  by (simp add: sorted_data_def dict_values_def)

lemma regenerate_completes:
  assumes "\<not> write_raises w (output_csv self) (Suc (length (unique_combinations self)))"
  shows "regenerate_sorted_csv (self, w) =
     (self, print (Regenerated_sorted_CSV (length (unique_combinations self)))
        (w\<lparr>files := (files w)(output_csv self \<mapsto>
             Header fieldnames # map Record (sorted_data (unique_combinations self)))\<rparr>))"
  using write_csv_completes [of w "output_csv self" "sorted_data (unique_combinations self)"] assms
  by (simp add: regenerate_sorted_csv_def Let_def length_sorted_data)

text \<open>
  C10.  For every sequence of parsed rows, \<open>aggregate_by_date\<close> returns the same sequence
  as inserting the rows one at a time into an empty ledger of the watcher and sorting it as
  \<open>regenerate_sorted_csv\<close> does; the file a regeneration that does not fail writes holds
  exactly these rows after the header.
\<close>

theorem batch_equals_incremental:
  assumes "unique_combinations (fst st) = []"
  shows "let st' = fold (\<lambda>r. append_to_csv [r]) rows st in
           sorted_data (unique_combinations (fst st')) = aggregate_by_date rows
         \<and> (\<not> write_raises (snd st') (output_csv (fst st'))
                 (Suc (length (unique_combinations (fst st')))) \<longrightarrow>
              files (snd (regenerate_sorted_csv st')) (output_csv (fst st')) =
                Some (Header fieldnames # map Record (aggregate_by_date rows)))"
proof -
  define st' where "st' = fold (\<lambda>r. append_to_csv [r]) rows st"
  obtain self w where s: "st' = (self, w)" by (cases st')
  have 1: "sorted_data (unique_combinations (fst st')) = aggregate_by_date rows"
    by (simp add: st'_def unique_combinations_fold_append_single assms sorted_data_def
        aggregate_by_date_def)
  then have "\<not> write_raises w (output_csv self) (Suc (length (unique_combinations self))) \<longrightarrow>
      files (snd (regenerate_sorted_csv st')) (output_csv self) =
        Some (Header fieldnames # map Record (aggregate_by_date rows))"
    by (simp add: s regenerate_completes print_def)
  with 1 show ?thesis
    by (simp add: Let_def st'_def [symmetric] s)
qed

text \<open>
  C6.  When the write does not fail, \<open>regenerate_sorted_csv\<close> replaces the content of the
  output file by the header followed by the stored rows, sorted ascending by (date,
  offeringId, invenOffrngLabel); rows that are equal on these three fields keep their
  insertion order.  The ledger is unchanged.  This holds for the watcher and for the live
  scanner.
\<close>

theorem regenerate_writes_sorted:
  assumes "\<not> write_raises w (output_csv self) (Suc (length (unique_combinations self)))"
    and "\<not> write_raises w (output_file h) (Suc (length (rt_unique_combinations h)))"
  shows "(\<exists>out. files (snd (regenerate_sorted_csv (self, w))) (output_csv self) =
             Some (Header fieldnames # map Record out)
         \<and> sorted (map date_offering_label out)
         \<and> mset out = mset (dict_values (unique_combinations self))
         \<and> (\<forall>k. filter (\<lambda>x. date_offering_label x = k) out =
                  filter (\<lambda>x. date_offering_label x = k) (dict_values (unique_combinations self)))
         \<and> fst (regenerate_sorted_csv (self, w)) = self)
       \<and> (\<exists>out. files (snd (handler_regenerate_sorted_csv (h, w))) (output_file h) =
             Some (Header fieldnames # map Record out)
         \<and> sorted (map date_offering_label out)
         \<and> mset out = mset (dict_values (rt_unique_combinations h))
         \<and> (\<forall>k. filter (\<lambda>x. date_offering_label x = k) out =
                  filter (\<lambda>x. date_offering_label x = k) (dict_values (rt_unique_combinations h)))
         \<and> fst (handler_regenerate_sorted_csv (h, w)) = h)"
proof
  show "\<exists>out. files (snd (regenerate_sorted_csv (self, w))) (output_csv self) =
             Some (Header fieldnames # map Record out)
         \<and> sorted (map date_offering_label out)
         \<and> mset out = mset (dict_values (unique_combinations self))
         \<and> (\<forall>k. filter (\<lambda>x. date_offering_label x = k) out =
                  filter (\<lambda>x. date_offering_label x = k) (dict_values (unique_combinations self)))
         \<and> fst (regenerate_sorted_csv (self, w)) = self"
    using assms(1)
    by (intro exI [of _ "sorted_data (unique_combinations self)"])
      (simp add: regenerate_completes print_def, simp add: sorted_data_def sort_key_stable)
next
  show "\<exists>out. files (snd (handler_regenerate_sorted_csv (h, w))) (output_file h) =
             Some (Header fieldnames # map Record out)
         \<and> sorted (map date_offering_label out)
         \<and> mset out = mset (dict_values (rt_unique_combinations h))
         \<and> (\<forall>k. filter (\<lambda>x. date_offering_label x = k) out =
                  filter (\<lambda>x. date_offering_label x = k) (dict_values (rt_unique_combinations h)))
         \<and> fst (handler_regenerate_sorted_csv (h, w)) = h"
    using write_csv_completes [of w "output_file h" "sorted_data (rt_unique_combinations h)"]
      assms(2)
    by (intro exI [of _ "sorted_data (rt_unique_combinations h)"])
      (simp add: handler_regenerate_sorted_csv_def print_def Let_def length_sorted_data,
        simp add: sorted_data_def sort_key_stable)
qed

section \<open>The ledger on concrete inputs\<close>

lemmas ledger_defs = append_to_csv_def insert_row_def dict_contains_def dict_set_def row_key_def
  append_csv_def write_csv_def write_raises_def written_def print_def get_or_def ready_world_def
  new_watcher_def slot_def
  dict_values_def sorted_data_def date_offering_label_def regenerate_sorted_csv_def
  aggregate_by_date_def keep_first_def

theorem ledger_identity_unique_witness:
  "dict_values (unique_combinations (fst (fold append_to_csv
       [[slot ''2025-06-01'' ''h1'' ''2''], [slot ''2025-06-01'' ''h1'' ''5'']]
       (new_watcher (''screens'', ''out.csv''), ready_world)))) = [slot ''2025-06-01'' ''h1'' ''2'']
   \<and> append_to_csv [slot ''2025-06-01'' ''h1'' ''7'']
        (fold append_to_csv
          [[slot ''2025-06-01'' ''h1'' ''2''], [slot ''2025-06-01'' ''h1'' ''5'']]
          (new_watcher (''screens'', ''out.csv''), ready_world)) =
      fold append_to_csv
          [[slot ''2025-06-01'' ''h1'' ''2''], [slot ''2025-06-01'' ''h1'' ''5'']]
          (new_watcher (''screens'', ''out.csv''), ready_world)"
  using ledger_identity_unique [where st = "(new_watcher (''screens'', ''out.csv''), ready_world)"
      and batches = "[[slot ''2025-06-01'' ''h1'' ''2''], [slot ''2025-06-01'' ''h1'' ''5'']]"
      and r = "slot ''2025-06-01'' ''h1'' ''7''" and rows = "[]"]
  by (simp add: ledger_defs)

theorem batch_equals_incremental_witness:
  "files (snd (regenerate_sorted_csv (fold (\<lambda>r. append_to_csv [r])
       [slot ''2025-06-02'' ''h1'' ''2'', slot ''2025-06-01'' ''h1'' ''5'',
        slot ''2025-06-02'' ''h1'' ''9'']
       (new_watcher (''screens'', ''out.csv''), ready_world)))) (''screens'', ''out.csv'') =
     Some (Header fieldnames # map Record (aggregate_by_date
       [slot ''2025-06-02'' ''h1'' ''2'', slot ''2025-06-01'' ''h1'' ''5'',
        slot ''2025-06-02'' ''h1'' ''9'']))
   \<and> aggregate_by_date
       [slot ''2025-06-02'' ''h1'' ''2'', slot ''2025-06-01'' ''h1'' ''5'',
        slot ''2025-06-02'' ''h1'' ''9''] =
       [slot ''2025-06-01'' ''h1'' ''5'', slot ''2025-06-02'' ''h1'' ''2'']"
  using batch_equals_incremental [where st = "(new_watcher (''screens'', ''out.csv''), ready_world)"
      and rows = "[slot ''2025-06-02'' ''h1'' ''2'', slot ''2025-06-01'' ''h1'' ''5'',
        slot ''2025-06-02'' ''h1'' ''9'']"]
  by (simp add: ledger_defs)

theorem regenerate_writes_sorted_witness:
  "files (snd (regenerate_sorted_csv
       (\<lparr>output_csv = (''screens'', ''out.csv''),
         unique_combinations =
           [(row_key (slot ''2025-06-02'' ''h1'' ''2''), slot ''2025-06-02'' ''h1'' ''2''),
            (row_key (slot ''2025-06-01'' ''h2'' ''5''), slot ''2025-06-01'' ''h2'' ''5''),
            (row_key (slot ''2025-06-01'' ''h1'' ''9''), slot ''2025-06-01'' ''h1'' ''9'')]\<rparr>,
        ready_world))) (''screens'', ''out.csv'') =
     Some [Header fieldnames, Record (slot ''2025-06-01'' ''h2'' ''5''),
           Record (slot ''2025-06-01'' ''h1'' ''9''), Record (slot ''2025-06-02'' ''h1'' ''2'')]"
  using regenerate_writes_sorted [where w = ready_world
      and h = "\<lparr>output_file = (''screens'', ''rt.csv''), all_data = [],
         rt_unique_combinations = []\<rparr>"
      and self = "\<lparr>output_csv = (''screens'', ''out.csv''),
         unique_combinations =
           [(row_key (slot ''2025-06-02'' ''h1'' ''2''), slot ''2025-06-02'' ''h1'' ''2''),
            (row_key (slot ''2025-06-01'' ''h2'' ''5''), slot ''2025-06-01'' ''h2'' ''5''),
            (row_key (slot ''2025-06-01'' ''h1'' ''9''), slot ''2025-06-01'' ''h1'' ''9'')]\<rparr>"]
  by (simp add: ledger_defs)

theorem ingest_twice_idempotent_witness:
  "process_payload
     (one_resort [one_offering ''A1'' ''Suite''
        [available_day ''2025-06-01'' [entry ''2'' ''h1'' ''King'']]])
     (process_payload
       (one_resort [one_offering ''A1'' ''Suite''
          [available_day ''2025-06-01'' [entry ''2'' ''h1'' ''King'']]])
       (new_watcher (''screens'', ''out.csv''), ready_world)) =
   process_payload
     (one_resort [one_offering ''A1'' ''Suite''
        [available_day ''2025-06-01'' [entry ''2'' ''h1'' ''King'']]])
     (new_watcher (''screens'', ''out.csv''), ready_world)
   \<and> length (unique_combinations (fst (process_payload
     (one_resort [one_offering ''A1'' ''Suite''
        [available_day ''2025-06-01'' [entry ''2'' ''h1'' ''King'']]])
     (new_watcher (''screens'', ''out.csv''), ready_world)))) = 1"
  using ingest_twice_idempotent [where st = "(new_watcher (''screens'', ''out.csv''), ready_world)"
      and data = "one_resort [one_offering ''A1'' ''Suite''
        [available_day ''2025-06-01'' [entry ''2'' ''h1'' ''King'']]]"]
  by (simp add: process_payload_def parser_defs ledger_defs)

section \<open>The sorted view and the order of arrival\<close>

lemma date_offering_label_row_key:
  "date_offering_label r = (case row_key r of (d, i, h, l) \<Rightarrow> (d, i, l))"
  by (simp add: date_offering_label_def row_key_def)

lemma map_date_offering_label:
  "map date_offering_label xs = map (\<lambda>(d, i, h, l). (d, i, l)) (map row_key xs)"
  by (simp add: date_offering_label_row_key)

lemma map_sort_key: "map f (sort_key f xs) = sort (map f xs)"
  by (rule properties_for_sort [symmetric]) simp_all

lemma keyed_distinct_rows: "keyed d \<Longrightarrow> distinct (dict_values d)"
  using keyed_distinct_values [of d] by (simp add: distinct_map)

lemma keys_of_rows:
  "mset (map row_key (dict_values (fold keep_first rows []))) = mset_set (row_key ` set rows)"
proof -
  let ?L = "fold keep_first rows []"
  have k: "keyed ?L" by (intro keyed_fold keyed_empty)
  then have "distinct (map fst ?L)" by (simp add: keyed_def)
  moreover have "set (map fst ?L) = row_key ` set rows"
    using keys_fold [of rows "[]"] by simp
  ultimately have "mset (map fst ?L) = mset_set (row_key ` set rows)"
    by (metis mset_set_set)
  then show ?thesis by (simp add: keyed_values [OF k])
qed

lemma values_of_rows:
  assumes "inj_on row_key (set rows)"
  shows "set (dict_values (fold keep_first rows [])) = set rows"
proof
  show sub: "set (dict_values (fold keep_first rows [])) \<subseteq> set rows"
    using values_subset_fold [of rows "[]"] by (simp add: dict_values_def)
  show "set rows \<subseteq> set (dict_values (fold keep_first rows []))"
  proof
    fix r assume r: "r \<in> set rows"
    have "row_key r \<in> set (map fst (fold keep_first rows []))"
      using r keys_fold [of rows "[]"] by simp
    also have "map fst (fold keep_first rows []) =
        map row_key (dict_values (fold keep_first rows []))"
      by (rule keyed_values [symmetric]) (intro keyed_fold keyed_empty)
    finally obtain v where v: "v \<in> set (dict_values (fold keep_first rows []))"
      and eq: "row_key v = row_key r" by auto
    from v sub have "v \<in> set rows" by blast
    with eq r assms have "v = r" by (auto dest: inj_onD)
    with v show "r \<in> set (dict_values (fold keep_first rows []))" by simp
  qed
qed

lemma set_concat_parse:
  assumes "mset ps1 = mset ps2"
  shows "set (concat (map parse_response ps1)) = set (concat (map parse_response ps2))"
  using mset_eq_setD [OF assms] by simp

lemma sorted_data_keys_arrival:
  assumes "set rows1 = set rows2"
  shows "map date_offering_label (sorted_data (fold keep_first rows1 [])) =
         map date_offering_label (sorted_data (fold keep_first rows2 []))"
    and "mset (map row_key (sorted_data (fold keep_first rows1 []))) =
         mset (map row_key (sorted_data (fold keep_first rows2 [])))"
proof -
  let ?V1 = "dict_values (fold keep_first rows1 [])"
  let ?V2 = "dict_values (fold keep_first rows2 [])"
  have keys: "mset (map row_key ?V1) = mset (map row_key ?V2)"
    by (simp only: keys_of_rows assms)
  have "image_mset g (mset (map row_key ?V1)) = image_mset g (mset (map row_key ?V2))" for g
    by (simp only: keys)
  then have "mset (map g (map row_key ?V1)) = mset (map g (map row_key ?V2))" for g
    by (simp only: mset_map)
  then have "mset (map date_offering_label ?V1) = mset (map date_offering_label ?V2)"
    unfolding map_date_offering_label .
  then have "sort (map date_offering_label ?V1) = sort (map date_offering_label ?V2)"
    by (intro properties_for_sort) simp_all
  then show "map date_offering_label (sorted_data (fold keep_first rows1 [])) =
         map date_offering_label (sorted_data (fold keep_first rows2 []))"
    by (simp add: sorted_data_def map_sort_key)
  show "mset (map row_key (sorted_data (fold keep_first rows1 []))) =
         mset (map row_key (sorted_data (fold keep_first rows2 [])))"
    using keys by (simp add: sorted_data_def)
qed

lemma sorted_data_arrival:
  assumes "set rows1 = set rows2"
    and H: "\<forall>r\<in>set rows1. \<forall>r'\<in>set rows1.
              date_offering_label r = date_offering_label r' \<longrightarrow> r = r'"
  shows "sorted_data (fold keep_first rows1 []) = sorted_data (fold keep_first rows2 [])"
proof -
  let ?V1 = "dict_values (fold keep_first rows1 [])"
  let ?V2 = "dict_values (fold keep_first rows2 [])"
  have inj_label: "inj_on date_offering_label (set rows1)"
    using H by (auto simp: inj_on_def)
  have inj_key: "inj_on row_key (set rows1)"
    using H by (auto simp: inj_on_def date_offering_label_row_key)
  have V1: "set ?V1 = set rows1" using inj_key by (rule values_of_rows)
  have V2: "set ?V2 = set rows1"
    using inj_key values_of_rows [of rows2] by (simp add: assms(1))
  have "distinct ?V1" "distinct ?V2"
    by (intro keyed_distinct_rows keyed_fold keyed_empty)+
  then have "mset ?V1 = mset ?V2"
    using V1 V2 by (simp add: set_eq_iff_mset_eq_distinct [symmetric])
  then show ?thesis
    unfolding sorted_data_def using inj_label
    by (intro sort_key_eq_sort_key) (simp_all add: V1)
qed

text \<open>
  C3 (as amended).  For the same payloads in two orders of arrival, fed to two watchers that
  start with empty ledgers: the sorted snapshots hold the same identity keys and the same
  sequence of sort keys (date, offeringId, invenOffrngLabel).  They are the same sequence of
  records when any two parsed records that agree on (date, offeringId, invenOffrngLabel)
  are equal, that is, agree on the hash key and on \<open>availableCount\<close> as well.
\<close>

theorem sorted_view_order_independence:
  assumes "mset ps1 = mset ps2"
    and "unique_combinations (fst st1) = []" and "unique_combinations (fst st2) = []"
  shows "let S1 = sorted_data (unique_combinations (fst (fold process_payload ps1 st1)));
             S2 = sorted_data (unique_combinations (fst (fold process_payload ps2 st2)))
         in map date_offering_label S1 = map date_offering_label S2
          \<and> mset (map row_key S1) = mset (map row_key S2)
          \<and> ((\<forall>r\<in>set (concat (map parse_response ps1)).
               \<forall>r'\<in>set (concat (map parse_response ps1)).
                 date_offering_label r = date_offering_label r' \<longrightarrow> r = r') \<longrightarrow> S1 = S2)"
  using sorted_data_keys_arrival [OF set_concat_parse [OF assms(1)]]
    sorted_data_arrival [OF set_concat_parse [OF assms(1)]]
  by (simp add: Let_def unique_combinations_fold_process_payload assms(2,3))

text \<open>
  C3 as stated fails: two payloads report the same slot with the counts "2" and "5".  The
  snapshot holds the count of whichever arrived first.
\<close>

theorem arrival_order_counterexample:
  "sorted_data (unique_combinations (fst (fold process_payload
       [one_resort [one_offering ''A1'' ''Suite''
          [available_day ''2025-06-01'' [entry ''2'' ''h1'' ''King'']]],
        one_resort [one_offering ''A1'' ''Suite''
          [available_day ''2025-06-01'' [entry ''5'' ''h1'' ''King'']]]]
       (new_watcher (''screens'', ''out.csv''), ready_world)))) = [slot ''2025-06-01'' ''h1'' ''2'']
   \<and> sorted_data (unique_combinations (fst (fold process_payload
       [one_resort [one_offering ''A1'' ''Suite''
          [available_day ''2025-06-01'' [entry ''5'' ''h1'' ''King'']]],
        one_resort [one_offering ''A1'' ''Suite''
          [available_day ''2025-06-01'' [entry ''2'' ''h1'' ''King'']]]]
       (new_watcher (''screens'', ''out.csv''), ready_world)))) = [slot ''2025-06-01'' ''h1'' ''5'']"
  by (simp add: process_payload_def parser_defs ledger_defs)

theorem sorted_view_order_independence_witness:
  "sorted_data (unique_combinations (fst (fold process_payload
       [one_resort [one_offering ''A1'' ''Suite''
          [available_day ''2025-06-02'' [entry ''2'' ''h1'' ''King'']]],
        one_resort [one_offering ''A1'' ''Suite''
          [available_day ''2025-06-01'' [entry ''5'' ''h1'' ''King'']]]]
       (new_watcher (''screens'', ''out.csv''), ready_world)))) =
   sorted_data (unique_combinations (fst (fold process_payload
       [one_resort [one_offering ''A1'' ''Suite''
          [available_day ''2025-06-01'' [entry ''5'' ''h1'' ''King'']]],
        one_resort [one_offering ''A1'' ''Suite''
          [available_day ''2025-06-02'' [entry ''2'' ''h1'' ''King'']]]]
       (new_watcher (''screens'', ''out.csv''), ready_world))))"
  using sorted_view_order_independence [where
      ?ps1.0 = "[one_resort [one_offering ''A1'' ''Suite''
          [available_day ''2025-06-02'' [entry ''2'' ''h1'' ''King'']]],
        one_resort [one_offering ''A1'' ''Suite''
          [available_day ''2025-06-01'' [entry ''5'' ''h1'' ''King'']]]]"
      and ?ps2.0 = "[one_resort [one_offering ''A1'' ''Suite''
          [available_day ''2025-06-01'' [entry ''5'' ''h1'' ''King'']]],
        one_resort [one_offering ''A1'' ''Suite''
          [available_day ''2025-06-02'' [entry ''2'' ''h1'' ''King'']]]]"
      and ?st1.0 = "(new_watcher (''screens'', ''out.csv''), ready_world)"
      and ?st2.0 = "(new_watcher (''screens'', ''out.csv''), ready_world)"]
  by (simp add: process_payload_def parser_defs ledger_defs)

section \<open>Failing writes\<close>

lemma write_raises_print [simp]: "write_raises (print m w) p n = write_raises w p n"
  by (simp add: write_raises_def print_def)

lemma write_raises_after_failed_write [simp]:
  "write_raises (after_failed_write a q lines w) p n = write_raises w p n"
  by (simp add: write_raises_def after_failed_write_def)

lemma console_after_failed_write [simp]:
  "console (after_failed_write a q lines w) = console w"
  by (simp add: after_failed_write_def)

lemma after_failed_write_print:
  "after_failed_write a p lines (print m w) = print m (after_failed_write a p lines w)"
  by (simp add: after_failed_write_def print_def written_def)

lemma files_print [simp]: "files (print m w) = files w"
  by (simp add: print_def)

lemma console_print [simp]: "console (print m w) = console w @ [m]"
  by (simp add: print_def)

lemma write_csv_fails:
  assumes "write_raises w p (Suc (length rows))"
  shows "write_csv p rows w =
     Raised (after_failed_write False p (Header fieldnames # map Record rows) w)"
  using assms by (simp add: write_csv_raises after_failed_write_def)

lemma append_csv_fails:
  assumes "write_raises w p (length rows)"
  shows "append_csv p rows w = Raised (after_failed_write True p (map Record rows) w)"
  using assms by (simp add: append_csv_def after_failed_write_def Let_def)

lemma files_append_csv_other:
  "q \<noteq> p \<Longrightarrow> files (rows_of (append_csv p rows w)) q = files w q"
  by (simp add: append_csv_def Let_def)

lemma write_output_first:
  assumes "\<not> write_raises w (dir, name) (Suc (length rows))"
  shows "write_output cwd dir name rows w =
     print (CSV_file_created (dir, name) (length rows))
       (w\<lparr>files := (files w)((dir, name) \<mapsto> Header fieldnames # map Record rows)\<rparr>)"
  using assms by (simp add: write_output_def Let_def write_csv_completes)

lemma write_output_retry:
  assumes "write_raises w (dir, name) (Suc (length rows))"
    and "\<not> write_raises w (cwd, name) (Suc (length rows))"
  shows "write_output cwd dir name rows w =
     print (CSV_file_created_at_alternative (cwd, name) (length rows))
       ((print (Trying_alternative_location (cwd, name))
          (print (Error_writing_CSV_file (dir, name))
            (after_failed_write False (dir, name) (Header fieldnames # map Record rows) w)))
        \<lparr>files := (files (after_failed_write False (dir, name)
             (Header fieldnames # map Record rows) w))
           ((cwd, name) \<mapsto> Header fieldnames # map Record rows)\<rparr>)"
proof -
  let ?w0 = "after_failed_write False (dir, name) (Header fieldnames # map Record rows) w"
  let ?w2 = "print (Trying_alternative_location (cwd, name))
      (print (Error_writing_CSV_file (dir, name)) ?w0)"
  have "\<not> write_raises ?w2 (cwd, name) (Suc (length rows))"
    using assms(2) by simp
  then have "write_csv (cwd, name) rows ?w2 =
      Completed (?w2\<lparr>files := (files ?w2)((cwd, name) \<mapsto> Header fieldnames # map Record rows)\<rparr>)"
    by (rule write_csv_completes)
  moreover have "files ?w2 = files ?w0" by (simp add: print_def)
  ultimately show ?thesis
    using assms(1) by (simp add: write_output_def Let_def write_csv_fails)
qed

lemma write_output_gives_up:
  assumes "write_raises w (dir, name) (Suc (length rows))"
    and "write_raises w (cwd, name) (Suc (length rows))"
  shows "write_output cwd dir name rows w =
     print Error_writing_to_alternative_location
       (after_failed_write False (cwd, name) (Header fieldnames # map Record rows)
         (print (Trying_alternative_location (cwd, name))
           (print (Error_writing_CSV_file (dir, name))
             (after_failed_write False (dir, name) (Header fieldnames # map Record rows) w))))"
proof -
  let ?w0 = "after_failed_write False (dir, name) (Header fieldnames # map Record rows) w"
  let ?w2 = "print (Trying_alternative_location (cwd, name))
      (print (Error_writing_CSV_file (dir, name)) ?w0)"
  have "write_raises ?w2 (cwd, name) (Suc (length rows))"
    using assms(2) by simp
  then have "write_csv (cwd, name) rows ?w2 =
      Raised (after_failed_write False (cwd, name) (Header fieldnames # map Record rows) ?w2)"
    by (rule write_csv_fails)
  then show ?thesis
    using assms(1) by (simp add: write_output_def Let_def write_csv_fails)
qed

lemma append_to_csv_fails:
  assumes "snd (fold insert_row new_rows (unique_combinations self, [])) \<noteq> []"
    and "write_raises w (output_csv self)
           (length (snd (fold insert_row new_rows (unique_combinations self, []))))"
  shows "snd (append_to_csv new_rows (self, w)) =
     print Error_writing_to_CSV
       (after_failed_write True (output_csv self)
          (map Record (snd (fold insert_row new_rows (unique_combinations self, [])))) w)"
proof -
  obtain d n where f: "fold insert_row new_rows (unique_combinations self, []) = (d, n)"
    by (cases "fold insert_row new_rows (unique_combinations self, [])")
  with assms have "n \<noteq> []" and "write_raises w (output_csv self) (length n)" by simp_all
  then show ?thesis
    by (simp add: append_to_csv_def f Let_def append_csv_fails)
qed

lemma files_append_to_csv_other:
  assumes "q \<noteq> output_csv self"
  shows "files (snd (append_to_csv new_rows (self, w))) q = files w q"
proof -
  obtain d n where f: "fold insert_row new_rows (unique_combinations self, []) = (d, n)"
    by (cases "fold insert_row new_rows (unique_combinations self, [])")
  have "files (rows_of (append_csv (output_csv self) n w)) q = files w q"
    using assms by (rule files_append_csv_other)
  then show ?thesis
    by (cases "append_csv (output_csv self) n w")
      (simp_all add: append_to_csv_def f Let_def print_def)
qed

lemma regenerate_fails:
  assumes "write_raises w (output_csv self) (Suc (length (unique_combinations self)))"
  shows "regenerate_sorted_csv (self, w) =
     (self, print Error_regenerating_CSV
        (after_failed_write False (output_csv self)
           (Header fieldnames # map Record (sorted_data (unique_combinations self))) w))"
  using write_csv_fails [of w "output_csv self" "sorted_data (unique_combinations self)"] assms
  by (simp add: regenerate_sorted_csv_def Let_def length_sorted_data)

text \<open>
  C8 (as amended).  A write fails when the file cannot be opened or when writing a line
  raises after it was opened.  The batch converter writes its output to the input
  directory; when that write fails it retries exactly once, in the working directory, and
  when the retry fails too it prints the failure (nothing is raised or returned to the
  caller).  The watcher does not retry: a failing append or regeneration is printed and no
  path but the output path is ever written.  A file that could not be opened is left as it
  was; a file that was opened holds the lines written before the failure.  The ledger does
  not depend on the outcome of the write: after a failed append it holds the new records,
  so that any later regeneration that does not fail writes all stored records.
\<close>

theorem write_failure_handling:
  "(\<not> write_raises wa (dir, name) (Suc (length rows)) \<longrightarrow>
      files (write_output cwd dir name rows wa) =
        (files wa)((dir, name) \<mapsto> Header fieldnames # map Record rows)
      \<and> console (write_output cwd dir name rows wa) =
        console wa @ [CSV_file_created (dir, name) (length rows)])
   \<and> (write_raises wb (dir, name) (Suc (length rows))
        \<and> \<not> write_raises wb (cwd, name) (Suc (length rows)) \<longrightarrow>
      files (write_output cwd dir name rows wb) =
        (files (after_failed_write False (dir, name) (Header fieldnames # map Record rows) wb))
          ((cwd, name) \<mapsto> Header fieldnames # map Record rows)
      \<and> console (write_output cwd dir name rows wb) =
        console wb @ [Error_writing_CSV_file (dir, name), Trying_alternative_location (cwd, name),
          CSV_file_created_at_alternative (cwd, name) (length rows)])
   \<and> (write_raises wc (dir, name) (Suc (length rows))
        \<and> write_raises wc (cwd, name) (Suc (length rows)) \<longrightarrow>
      files (write_output cwd dir name rows wc) =
        files (after_failed_write False (cwd, name) (Header fieldnames # map Record rows)
          (after_failed_write False (dir, name) (Header fieldnames # map Record rows) wc))
      \<and> console (write_output cwd dir name rows wc) =
        console wc @ [Error_writing_CSV_file (dir, name), Trying_alternative_location (cwd, name),
          Error_writing_to_alternative_location])
   \<and> unique_combinations (fst (append_to_csv new_rows (self, w))) =
        fold keep_first new_rows (unique_combinations self)
   \<and> (\<forall>q. q \<noteq> output_csv self \<longrightarrow>
        files (snd (append_to_csv new_rows (self, w))) q = files w q
        \<and> files (snd (regenerate_sorted_csv (self, w))) q = files w q)
   \<and> (snd (fold insert_row new_rows (unique_combinations self, [])) \<noteq> []
        \<and> write_raises w (output_csv self)
             (length (snd (fold insert_row new_rows (unique_combinations self, [])))) \<longrightarrow>
      snd (append_to_csv new_rows (self, w)) =
        print Error_writing_to_CSV
          (after_failed_write True (output_csv self)
             (map Record (snd (fold insert_row new_rows (unique_combinations self, [])))) w))
   \<and> (write_raises w (output_csv self) (Suc (length (unique_combinations self))) \<longrightarrow>
      regenerate_sorted_csv (self, w) =
        (self, print Error_regenerating_CSV
           (after_failed_write False (output_csv self)
              (Header fieldnames # map Record (sorted_data (unique_combinations self))) w)))
   \<and> (\<not> write_raises w' (output_csv self)
            (Suc (length (fold keep_first new_rows (unique_combinations self)))) \<longrightarrow>
      files (snd (regenerate_sorted_csv (fst (append_to_csv new_rows (self, w)), w')))
          (output_csv self) =
        Some (Header fieldnames # map Record
          (sorted_data (fold keep_first new_rows (unique_combinations self)))))"
proof (intro conjI impI allI)
  assume "\<not> write_raises wa (dir, name) (Suc (length rows))"
  then show "files (write_output cwd dir name rows wa) =
        (files wa)((dir, name) \<mapsto> Header fieldnames # map Record rows)"
    and "console (write_output cwd dir name rows wa) =
        console wa @ [CSV_file_created (dir, name) (length rows)]"
    by (simp_all add: write_output_first print_def)
next
  assume "write_raises wb (dir, name) (Suc (length rows))
        \<and> \<not> write_raises wb (cwd, name) (Suc (length rows))"
  then show "files (write_output cwd dir name rows wb) =
        (files (after_failed_write False (dir, name) (Header fieldnames # map Record rows) wb))
          ((cwd, name) \<mapsto> Header fieldnames # map Record rows)"
    and "console (write_output cwd dir name rows wb) =
        console wb @ [Error_writing_CSV_file (dir, name), Trying_alternative_location (cwd, name),
          CSV_file_created_at_alternative (cwd, name) (length rows)]"
    by (simp_all add: write_output_retry print_def)
next
  assume "write_raises wc (dir, name) (Suc (length rows))
        \<and> write_raises wc (cwd, name) (Suc (length rows))"
  then show "files (write_output cwd dir name rows wc) =
        files (after_failed_write False (cwd, name) (Header fieldnames # map Record rows)
          (after_failed_write False (dir, name) (Header fieldnames # map Record rows) wc))"
    and "console (write_output cwd dir name rows wc) =
        console wc @ [Error_writing_CSV_file (dir, name), Trying_alternative_location (cwd, name),
          Error_writing_to_alternative_location]"
    by (simp_all add: write_output_gives_up after_failed_write_print)
next
  show "unique_combinations (fst (append_to_csv new_rows (self, w))) =
        fold keep_first new_rows (unique_combinations self)"
    by (simp add: unique_combinations_append_to_csv)
next
  fix q assume q: "q \<noteq> output_csv self"
  then show "files (snd (append_to_csv new_rows (self, w))) q = files w q"
    by (rule files_append_to_csv_other)
  show "files (snd (regenerate_sorted_csv (self, w))) q = files w q"
  proof (cases "write_raises w (output_csv self) (Suc (length (unique_combinations self)))")
    case True
    then show ?thesis
      using q by (simp add: regenerate_fails print_def after_failed_write_def)
  next
    case False
    then show ?thesis
      using q by (simp add: regenerate_completes print_def)
  qed
next
  assume "snd (fold insert_row new_rows (unique_combinations self, [])) \<noteq> []
        \<and> write_raises w (output_csv self)
             (length (snd (fold insert_row new_rows (unique_combinations self, []))))"
  then show "snd (append_to_csv new_rows (self, w)) =
        print Error_writing_to_CSV
          (after_failed_write True (output_csv self)
             (map Record (snd (fold insert_row new_rows (unique_combinations self, [])))) w)"
    by (simp add: append_to_csv_fails)
next
  assume "write_raises w (output_csv self) (Suc (length (unique_combinations self)))"
  then show "regenerate_sorted_csv (self, w) =
        (self, print Error_regenerating_CSV
           (after_failed_write False (output_csv self)
              (Header fieldnames # map Record (sorted_data (unique_combinations self))) w))"
    by (rule regenerate_fails)
next
  assume "\<not> write_raises w' (output_csv self)
            (Suc (length (fold keep_first new_rows (unique_combinations self))))"
  then show "files (snd (regenerate_sorted_csv (fst (append_to_csv new_rows (self, w)), w')))
          (output_csv self) =
        Some (Header fieldnames # map Record
          (sorted_data (fold keep_first new_rows (unique_combinations self))))"
    using regenerate_completes [of w' "fst (append_to_csv new_rows (self, w))"]
    by (simp add: output_csv_append_to_csv unique_combinations_append_to_csv print_def)
qed

text \<open>
  C8 as stated fails: the output file of the watcher cannot be opened and a write to the
  working directory would succeed.  After the failed append there is no file in the working
  directory, and the console holds the error message alone: the watcher has not retried.
\<close>

theorem append_without_retry_counterexample:
  "write_raises (locked_world [(''screens'', ''out.csv'')]) (''screens'', ''out.csv'') 1
   \<and> \<not> write_raises (locked_world [(''screens'', ''out.csv'')]) (''.'', ''out.csv'') 1
   \<and> files (snd (append_to_csv [slot ''2025-06-01'' ''h1'' ''2'']
        (new_watcher (''screens'', ''out.csv''), locked_world [(''screens'', ''out.csv'')])))
        (''.'', ''out.csv'') = None
   \<and> console (snd (append_to_csv [slot ''2025-06-01'' ''h1'' ''2'']
        (new_watcher (''screens'', ''out.csv''), locked_world [(''screens'', ''out.csv'')]))) =
        [Error_writing_to_CSV]"
  by (simp add: ledger_defs locked_world_def)

theorem write_failure_handling_witness:
  "files (write_output ''.'' ''screens'' ''out.csv'' [slot ''2025-06-01'' ''h1'' ''2''] ready_world)
     (''screens'', ''out.csv'') = Some [Header fieldnames, Record (slot ''2025-06-01'' ''h1'' ''2'')]
   \<and> files (write_output ''.'' ''screens'' ''out.csv'' [slot ''2025-06-01'' ''h1'' ''2'']
       (short_write_world (''screens'', ''out.csv'') 1))
     (''.'', ''out.csv'') = Some [Header fieldnames, Record (slot ''2025-06-01'' ''h1'' ''2'')]
   \<and> files (write_output ''.'' ''screens'' ''out.csv'' [slot ''2025-06-01'' ''h1'' ''2'']
       (short_write_world (''screens'', ''out.csv'') 1))
     (''screens'', ''out.csv'') = Some [Header fieldnames]
   \<and> console (write_output ''.'' ''screens'' ''out.csv'' [slot ''2025-06-01'' ''h1'' ''2'']
       (short_write_world (''screens'', ''out.csv'') 1)) =
     [Error_writing_CSV_file (''screens'', ''out.csv''),
      Trying_alternative_location (''.'', ''out.csv''),
      CSV_file_created_at_alternative (''.'', ''out.csv'') 1]
   \<and> console (write_output ''.'' ''screens'' ''out.csv'' [slot ''2025-06-01'' ''h1'' ''2'']
       (locked_world [(''screens'', ''out.csv''), (''.'', ''out.csv'')])) =
     [Error_writing_CSV_file (''screens'', ''out.csv''),
      Trying_alternative_location (''.'', ''out.csv''), Error_writing_to_alternative_location]
   \<and> console (snd (append_to_csv [slot ''2025-06-01'' ''h1'' ''2'']
       (new_watcher (''screens'', ''out.csv''), locked_world [(''screens'', ''out.csv'')]))) =
     [Error_writing_to_CSV]
   \<and> files (snd (append_to_csv [slot ''2025-06-01'' ''h1'' ''2'']
       (new_watcher (''screens'', ''out.csv''), locked_world [(''screens'', ''out.csv'')])))
     (''screens'', ''out.csv'') = None
   \<and> console (snd (regenerate_sorted_csv
       (new_watcher (''screens'', ''out.csv''), locked_world [(''screens'', ''out.csv'')]))) =
     [Error_regenerating_CSV]
   \<and> files (snd (regenerate_sorted_csv
       (fst (append_to_csv [slot ''2025-06-01'' ''h1'' ''2'']
          (new_watcher (''screens'', ''out.csv''), locked_world [(''screens'', ''out.csv'')])),
        ready_world))) (''screens'', ''out.csv'') =
     Some [Header fieldnames, Record (slot ''2025-06-01'' ''h1'' ''2'')]"
  using write_failure_handling [where wa = ready_world
      and wb = "short_write_world (''screens'', ''out.csv'') 1"
      and wc = "locked_world [(''screens'', ''out.csv''), (''.'', ''out.csv'')]"
      and w = "locked_world [(''screens'', ''out.csv'')]"
      and w' = ready_world
      and self = "new_watcher (''screens'', ''out.csv'')"
      and cwd = "''.''" and dir = "''screens''" and name = "''out.csv''"
      and rows = "[slot ''2025-06-01'' ''h1'' ''2'']"
      and new_rows = "[slot ''2025-06-01'' ''h1'' ''2'']"]
  by (simp add: ledger_defs locked_world_def short_write_world_def write_output_def
      after_failed_write_def)

section \<open>The dashboard's count of Presidential rows\<close>

lemmas stats_defs = read_csv_stats_def stats_body_def empty_stats_def available_of_def
  count_date_def count_property_def spec_presidential_count_def

text \<open>
  C9.  The claim counts every row whose offeringId or label contains "Presidential".  The
  reader tests the offeringId only inside the branch of a label that is not empty: a row
  with an empty label and the offeringId "A1 Presidential Reserve" is read (the total is 1)
  and is not counted, where the count of the claim is 1.  The parser produces such a row
  from an offering whose label lacks the phrase and an inventory entry without a label.
\<close>

theorem presidential_count_misses_empty_label:
  "presidential_count (read_csv_stats
     [\<lparr>csv_date = Some (Cell ''2025-06-01''), csv_offeringId = Some (Cell ''A1 Presidential Reserve''),
       csv_invenOffrngLabel = Some (Cell ''''), csv_availableCount = Some (Cell ''2'')\<rparr>]) = 0
   \<and> total_rows (read_csv_stats
     [\<lparr>csv_date = Some (Cell ''2025-06-01''), csv_offeringId = Some (Cell ''A1 Presidential Reserve''),
       csv_invenOffrngLabel = Some (Cell ''''), csv_availableCount = Some (Cell ''2'')\<rparr>]) = 1
   \<and> spec_presidential_count
     [\<lparr>csv_date = Some (Cell ''2025-06-01''), csv_offeringId = Some (Cell ''A1 Presidential Reserve''),
       csv_invenOffrngLabel = Some (Cell ''''), csv_availableCount = Some (Cell ''2'')\<rparr>] = 1
   \<and> parse_response (one_resort [one_offering ''A1 Presidential Reserve'' ''Suite''
        [available_day ''2025-06-01''
          [\<lparr>inv_availableCount = Some (PyStr ''2''), inv_inventoryOfferingHashKey = Some ''h1'',
            inv_invenOffrngLabel = None\<rparr>]]]) =
     [\<lparr>date = ''2025-06-01'', offeringId = ''A1 Presidential Reserve'',
       inventoryOfferingHashKey = ''h1'', invenOffrngLabel = '''', availableCount = PyStr ''2''\<rparr>]"
  by (simp add: stats_defs parser_defs)

end
